theory Spec2Isabelle
  imports Main "HOL-Library.Word" "HOL-Library.Sublist"
begin

section \<open>Data model of backup.go\<close>

text \<open>
  The development embeds the downloader of \<^verbatim>\<open>backup.go\<close> in its current form (the
  one constructed by \<^verbatim>\<open>newDownloader(token, areaId, client, 5)\<close> in \<^verbatim>\<open>main.go\<close>).
  Sizes are Go \<^verbatim>\<open>int64\<close> values: 64-bit words whose order is the signed one
  (\<^const>\<open>word_sless\<close>) and whose addition wraps.
\<close>

type_synonym int64 = "64 word"

datatype errno = EEXIST | ENOENT | EACCES | ENOSPC | EIO

text \<open>
  Go error values. \<open>ErrorsNew msg\<close> is \<^verbatim>\<open>errors.New(msg)\<close>;
  \<open>HttpRequestStatus code status\<close> is
  \<^verbatim>\<open>errors.Errorf("http request: %d %v", code, status)\<close> of \<^verbatim>\<open>request\<close>;
  \<open>ResultStatus code status\<close> is \<^verbatim>\<open>fmt.Errorf("status: %d %v", code, status)\<close>
  of \<^verbatim>\<open>pushResult\<close>; \<open>PathError\<close> is the \<^verbatim>\<open>*os.PathError\<close> of a failed
  file-system call (operation, path, cause); \<open>ExtError\<close> is an error handed back by
  a library call (HTTP transport, RPC, JSON).
\<close>

datatype error =
    ErrorsNew string
  | HttpRequestStatus nat string
  | ResultStatus nat string
  | PathError string string errno
  | ExtError string

text \<open>The fields of \<^verbatim>\<open>model.Asset\<close> that the downloader reads or writes.\<close>

record asset =
  Cid :: string
  TotalSize :: int64
  EndTime :: nat
  Event :: int
  Path :: string

text \<open>An entry of \<^verbatim>\<open>downloadInfos.SourceList\<close>: address and access token.\<close>

record source =
  Address :: string
  Tk :: string

record scheduler =
  Uuid :: string
  AreaId :: string

record response =
  StatusCode :: nat
  Status :: string
  Body :: string

record file_info =
  IsDir :: bool
  Size :: int64

text \<open>
  The calls that leave the program: their results are parameters of the model. Each
  field is what the named library call returns for the given arguments.
\<close>

record env =
  Format :: "nat \<Rightarrow> string"
    \<comment> \<open>\<^verbatim>\<open>job.EndTime.Format(dirDateTimeFormat)\<close>\<close>
  Mkdir :: "string \<Rightarrow> error option"
    \<comment> \<open>\<^verbatim>\<open>os.Mkdir(dir, 0775)\<close>; \<open>None\<close> is the nil error\<close>
  Walk :: "string \<Rightarrow> (file_info \<times> error option) list"
    \<comment> \<open>the calls \<^verbatim>\<open>filepath.Walk\<close> makes to its callback: entry and error argument\<close>
  GetAssetSourceDownloadInfo :: "string \<Rightarrow> string \<Rightarrow> error + source list"
    \<comment> \<open>\<^verbatim>\<open>scheduler.Api.GetAssetSourceDownloadInfo(ctx, cid)\<close>, by scheduler \<open>Uuid\<close>\<close>
  NewRequest :: "string \<Rightarrow> error option"
    \<comment> \<open>\<^verbatim>\<open>http.NewRequest(http.MethodGet, endpoint, nil)\<close>\<close>
  Do :: "string \<Rightarrow> error + response"
    \<comment> \<open>\<^verbatim>\<open>client.Do(req)\<close> for the request to an endpoint\<close>
  Create :: "string \<Rightarrow> error option"
    \<comment> \<open>\<^verbatim>\<open>os.Create(path)\<close>\<close>
  Copy :: "string \<Rightarrow> string \<Rightarrow> (nat \<times> error) option"
    \<comment> \<open>\<^verbatim>\<open>io.Copy(file, reader)\<close> of a body into the file at a path: \<open>None\<close> is
        the nil error (the whole body was written), \<open>Some (n, e)\<close> is error \<open>e\<close> after
        \<open>n\<close> bytes\<close>
  DoPost :: "string \<Rightarrow> asset list \<Rightarrow> error + response"
    \<comment> \<open>\<^verbatim>\<open>http.DefaultClient.Do(req)\<close> for the POST of \<^verbatim>\<open>pushResult\<close>, by token
        and payload\<close>

text \<open>Every call that leaves the program is recorded, in order.\<close>

datatype event =
    EvStat string
  | EvMkdir string
  | EvWalk string
  | EvGetInfo string string
  | EvNewRequest string
  | EvDo string
  | EvCreate string
  | EvCopy string
  | EvPushResult string "asset list"
  | EvSleep
  | EvGetJobs

text \<open>
  The mutable state: the two maps of \<^verbatim>\<open>Downloader\<close> (\<open>dirSize\<close> under \<^verbatim>\<open>lk\<close>,
  \<open>downloading\<close> under \<^verbatim>\<open>dlk\<close>), the paths present on disk (\<open>dirs\<close>), the
  contents of the files written, and the trace of external calls.
\<close>

record state =
  dirSize :: "string \<rightharpoonup> int64"
  downloading :: "string set"
  dirs :: "string set"
  files :: "string \<rightharpoonup> string"
  trace :: "event list"

text \<open>The immutable fields of \<^verbatim>\<open>Downloader\<close>.\<close>

record downloader =
  schedulers :: "scheduler list"
  areaId :: string
  token :: string
  concurrent :: nat

section \<open>Constants\<close>

definition maxSingleDirSize :: int64 where
  "maxSingleDirSize = push_bit 30 18"

definition ErrorEventID :: int where
  "ErrorEventID = 99"

definition BackupOutPath :: string where
  "BackupOutPath = ''/carfile/titan''"

definition GiB :: int64 where
  "GiB = push_bit 30 1"

section \<open>Directory allocator\<close>

definition emit :: "event \<Rightarrow> state \<Rightarrow> state" where
  "emit e s = s\<lparr>trace := trace s @ [e]\<rparr>"

text \<open>
  \<^verbatim>\<open>filepath.Join(a, b)\<close> for components that \<^verbatim>\<open>filepath.Clean\<close> leaves as they
  are: no separator and no dot segment in \<open>b\<close>. That is what
  \<^verbatim>\<open>Format("20060102")\<close> followed by one letter is, and a content id followed by
  \<^verbatim>\<open>.car\<close>. For other components the code's path is the cleaned one, a different
  string; the paths are labels here and no statement depends on their shape.
\<close>

definition Join :: "string \<Rightarrow> string \<Rightarrow> string" where
  "Join a b = a @ ''/'' @ b"

text \<open>
  \<^verbatim>\<open>getDirSize\<close>: the callback adds the size of every entry that is not a directory
  and returns the error it was given; \<^verbatim>\<open>filepath.Walk\<close> stops at the first
  non-nil return and returns it. (A call without an entry, on which the callback
  would panic, is left out: the directory has just been seen by \<^verbatim>\<open>fileutil.Exist\<close>.)
\<close>

fun walk_sum :: "(file_info \<times> error option) list \<Rightarrow> int64 \<Rightarrow> int64 \<times> error option" where
  "walk_sum [] sz = (sz, None)"
| "walk_sum ((info, err) # rest) sz =
     (let sz' = (if \<not> IsDir info then sz + Size info else sz)
      in case err of Some e \<Rightarrow> (sz', Some e) | None \<Rightarrow> walk_sum rest sz')"

definition getDirSize :: "env \<Rightarrow> string \<Rightarrow> state \<Rightarrow> (int64 \<times> error option) \<times> state" where
  "getDirSize env path s = (walk_sum (Walk env path) 0, emit (EvWalk path) s)"

text \<open>\<^verbatim>\<open>fileutil.Exist(dir)\<close>: a stat of the path.\<close>

definition Exist :: "string \<Rightarrow> state \<Rightarrow> bool \<times> state" where
  "Exist dir s = (dir \<in> dirs s, emit (EvStat dir) s)"

text \<open>
  \<^verbatim>\<open>os.Mkdir\<close>: on a nil error the directory is on disk afterwards. It is there as
  well when the call fails with \<open>EEXIST\<close>: somebody else made it since the last look.
\<close>

definition os_Mkdir :: "env \<Rightarrow> string \<Rightarrow> state \<Rightarrow> error option \<times> state" where
  "os_Mkdir env dir s =
     (case Mkdir env dir of
        Some e \<Rightarrow>
          (Some e, emit (EvMkdir dir)
             (if e = PathError ''mkdir'' dir EEXIST then s\<lparr>dirs := insert dir (dirs s)\<rparr> else s))
      | None \<Rightarrow> (None, emit (EvMkdir dir) (s\<lparr>dirs := insert dir (dirs s)\<rparr>)))"

text \<open>
  \<^verbatim>\<open>createOrGetSize\<close> returns \<^verbatim>\<open>(size, err)\<close>. A missing directory is created and
  reported with size 0 together with whatever \<^verbatim>\<open>os.Mkdir\<close> returned; an existing one is
  looked up in the cache, and scanned and cached on a miss.
\<close>

definition createOrGetSize :: "env \<Rightarrow> string \<Rightarrow> state \<Rightarrow> (int64 \<times> error option) \<times> state" where
  "createOrGetSize env dir s =
     (let (ex, s1) = Exist dir s in
      if \<not> ex then
        (let (err, s2) = os_Mkdir env dir s1 in ((0, err), s2))
      else
        (case dirSize s1 dir of
           Some sz \<Rightarrow> ((sz, None), s1)
         | None \<Rightarrow>
            (let ((sz, err), s2) = getDirSize env dir s1 in
             case err of
               Some e \<Rightarrow> ((0, Some e), s2)
             | None \<Rightarrow> ((sz, None), s2\<lparr>dirSize := (dirSize s2)(dir \<mapsto> sz)\<rparr>))))"

text \<open>
  \<^verbatim>\<open>getOutPath\<close>: the loop \<^verbatim>\<open>for c := 'a'; c < 'z'; c++\<close> over runes, with
  \<open>outPath\<close> the variable declared before the loop. The rune \<open>c\<close> is a number;
  \<^verbatim>\<open>'a'\<close> is 97 and \<^verbatim>\<open>'z'\<close> is 122.
\<close>

function getOutPath_loop ::
  "env \<Rightarrow> string \<Rightarrow> nat \<Rightarrow> string \<Rightarrow> state \<Rightarrow> (string \<times> error option) \<times> state" where
  "getOutPath_loop env dir c outPath s =
     (if c < 122 then
        (let outPath' = Join BackupOutPath (dir @ [char_of c]);
             ((sz, err), s') = createOrGetSize env outPath' s
         in case err of
              Some e \<Rightarrow> (([], Some e), s')
            | None \<Rightarrow>
                if word_sless sz maxSingleDirSize then ((outPath', None), s')
                else getOutPath_loop env dir (c + 1) outPath' s')
      else ((outPath, None), s))"
  by pat_completeness auto
termination
  by (relation "measure (\<lambda>(env, dir, c, outPath, s). 122 - c)") auto

declare getOutPath_loop.simps [simp del]

definition getOutPath :: "env \<Rightarrow> string \<Rightarrow> state \<Rightarrow> (string \<times> error option) \<times> state" where
  "getOutPath env dir s = getOutPath_loop env dir 97 [] s"

section \<open>Download client\<close>

text \<open>
  \<^verbatim>\<open>request\<close>: the endpoint is \<^verbatim>\<open>fmt.Sprintf("%s%s/ipfs/%s?format=car", scheme, url, cid)\<close>.
  The function touches no field of the downloader; its result is the body of a response
  with status 200, or an error, together with the external calls it made.
\<close>

definition request ::
  "env \<Rightarrow> string \<Rightarrow> string \<Rightarrow> string \<Rightarrow> (error + string) \<times> event list" where
  "request env url cid tk =
     (let scheme = (if \<not> prefix ''http'' url then ''https://'' else []);
          endpoint = scheme @ url @ ''/ipfs/'' @ cid @ ''?format=car''
      in case NewRequest env endpoint of
           Some e \<Rightarrow> (Inl e, [EvNewRequest endpoint])
         | None \<Rightarrow>
            (case Do env endpoint of
               Inl e \<Rightarrow> (Inl e, [EvNewRequest endpoint, EvDo endpoint])
             | Inr resp \<Rightarrow>
                 if StatusCode resp \<noteq> 200
                 then (Inl (HttpRequestStatus (StatusCode resp) (Status resp)),
                       [EvNewRequest endpoint, EvDo endpoint])
                 else (Inr (Body resp), [EvNewRequest endpoint, EvDo endpoint])))"

definition emits :: "event list \<Rightarrow> state \<Rightarrow> state" where
  "emits es s = s\<lparr>trace := trace s @ es\<rparr>"

text \<open>\<^verbatim>\<open>os.Create\<close>: the file is there and empty afterwards.\<close>

definition os_Create :: "env \<Rightarrow> string \<Rightarrow> state \<Rightarrow> error option \<times> state" where
  "os_Create env path s =
     (case Create env path of
        Some e \<Rightarrow> (Some e, emit (EvCreate path) s)
      | None \<Rightarrow> (None, emit (EvCreate path) (s\<lparr>files := (files s)(path \<mapsto> [])\<rparr>)))"

text \<open>\<^verbatim>\<open>io.Copy\<close> of a response body into the file just created.\<close>

definition io_Copy :: "env \<Rightarrow> string \<Rightarrow> string \<Rightarrow> state \<Rightarrow> error option \<times> state" where
  "io_Copy env path reader s =
     (case Copy env path reader of
        Some (n, e) \<Rightarrow>
          (Some e, emit (EvCopy path) (s\<lparr>files := (files s)(path \<mapsto> take n reader)\<rparr>))
      | None \<Rightarrow> (None, emit (EvCopy path) (s\<lparr>files := (files s)(path \<mapsto> reader)\<rparr>)))"

text \<open>
  \<^verbatim>\<open>d.dirSize[outPath] += size\<close>: a key that is not in a Go map reads as 0.
\<close>

definition dirSize_add :: "string \<Rightarrow> int64 \<Rightarrow> state \<Rightarrow> state" where
  "dirSize_add outPath sz s =
     s\<lparr>dirSize := (dirSize s)(outPath \<mapsto>
          (case dirSize s outPath of None \<Rightarrow> 0 | Some v \<Rightarrow> v) + sz)\<rparr>"

text \<open>
  The loop of \<^verbatim>\<open>download\<close> over \<^verbatim>\<open>downloadInfos.SourceList\<close>. The result is the
  returned error, \<open>None\<close> for \<^verbatim>\<open>nil\<close>; the statement after the loop is
  \<^verbatim>\<open>return nil\<close>.
\<close>

fun download_loop ::
  "env \<Rightarrow> string \<Rightarrow> string \<Rightarrow> int64 \<Rightarrow> source list \<Rightarrow> state \<Rightarrow> error option \<times> state" where
  "download_loop env outPath cid sz [] s = (None, s)"
| "download_loop env outPath cid sz (downloadInfo # rest) s =
     (let (r, es) = request env (Address downloadInfo) cid (Tk downloadInfo);
          s1 = emits es s
      in case r of
        Inl e \<Rightarrow> download_loop env outPath cid sz rest s1
      | Inr reader \<Rightarrow>
         (let (err, s2) = os_Create env (Join outPath (cid @ ''.car'')) s1 in
          case err of
            Some e \<Rightarrow> (Some e, s2)
          | None \<Rightarrow>
             (let (err', s3) = io_Copy env (Join outPath (cid @ ''.car'')) reader s2 in
              case err' of
                Some e \<Rightarrow> (Some e, s3)
              | None \<Rightarrow> (None, dirSize_add outPath sz s3))))"

definition download ::
  "env \<Rightarrow> scheduler \<Rightarrow> string \<Rightarrow> string \<Rightarrow> int64 \<Rightarrow> state \<Rightarrow> error option \<times> state" where
  "download env sched outPath cid sz s =
     (let s1 = emit (EvGetInfo (Uuid sched) cid) s in
      case GetAssetSourceDownloadInfo env (Uuid sched) cid of
        Inl e \<Rightarrow> (Some e, s1)
      | Inr SourceList \<Rightarrow>
          if length SourceList = 0
          then (Some (ErrorsNew (''CARFile '' @ cid @ '' not found'')), s1)
          else download_loop env outPath cid sz SourceList s1)"

section \<open>Processing one job\<close>

text \<open>
  \<^verbatim>\<open>create\<close> works on a pointer to the job. The result is the returned pair (the
  pointer, \<open>None\<close> for \<^verbatim>\<open>nil\<close>, and the error), the job as the pointer's target
  is left, and the state.
\<close>

definition create ::
  "env \<Rightarrow> downloader \<Rightarrow> asset \<Rightarrow> state \<Rightarrow> (asset option \<times> error option) \<times> asset \<times> state" where
  "create env d job s =
     (let dir = Format env (EndTime job);
          ((outPath, err), s1) = getOutPath env dir s
      in case err of
           Some e \<Rightarrow> ((None, Some e), job, s1)
         | None \<Rightarrow>
            (case find (\<lambda>sd. AreaId sd = areaId d) (schedulers d) of
               None \<Rightarrow> ((None, Some (ErrorsNew ''no scheduler found'')), job, s1)
             | Some sched \<Rightarrow>
                (let (err', s2) = download env sched outPath (Cid job) (TotalSize job) s1 in
                 case err' of
                   Some e \<Rightarrow>
                     (let job' = job\<lparr>Event := ErrorEventID\<rparr> in ((Some job', Some e), job', s2))
                 | None \<Rightarrow>
                     (let job' = job\<lparr>Path := outPath\<rparr> in ((Some job', None), job', s2)))))"

text \<open>\<^verbatim>\<open>pushResult\<close>: the POST of the jobs, and the check of its status.\<close>

definition pushResult :: "env \<Rightarrow> string \<Rightarrow> asset list \<Rightarrow> state \<Rightarrow> error option \<times> state" where
  "pushResult env tok jobs s =
     (let s1 = emit (EvPushResult tok jobs) s in
      case DoPost env tok jobs of
        Inl e \<Rightarrow> (Some e, s1)
      | Inr resp \<Rightarrow>
          if StatusCode resp \<noteq> 200
          then (Some (ResultStatus (StatusCode resp) (Status resp)), s1)
          else (None, s1))"

text \<open>
  The function returned by \<^verbatim>\<open>jobProcess\<close>, in the pieces that hold a lock or make
  one call. \<open>jobProcess_enter\<close> is the section between \<^verbatim>\<open>d.dlk.Lock()\<close> and
  \<^verbatim>\<open>d.dlk.Unlock()\<close> at the start: the membership test and the insertion; its
  result says whether the content id was found.
\<close>

definition jobProcess_enter :: "asset \<Rightarrow> state \<Rightarrow> bool \<times> state" where
  "jobProcess_enter a s =
     (if Cid a \<in> downloading s then (True, s)
      else (False, s\<lparr>downloading := insert (Cid a) (downloading s)\<rparr>))"

definition jobProcess_report :: "env \<Rightarrow> downloader \<Rightarrow> asset \<Rightarrow> state \<Rightarrow> state" where
  "jobProcess_report env d a s = snd (pushResult env (token d) [a] s)"

definition jobProcess_sleep :: "state \<Rightarrow> state" where
  "jobProcess_sleep s = emit EvSleep s"

definition jobProcess_leave :: "asset \<Rightarrow> state \<Rightarrow> state" where
  "jobProcess_leave a s = s\<lparr>downloading := downloading s - {Cid a}\<rparr>"

text \<open>One uninterrupted run of the function: the job as it is left, and the state.\<close>

definition jobProcess :: "env \<Rightarrow> downloader \<Rightarrow> asset \<Rightarrow> state \<Rightarrow> asset \<times> state" where
  "jobProcess env d a s =
     (let (existing, s1) = jobProcess_enter a s in
      if existing then (a, s1)
      else
        (let (r, a', s2) = create env d a s1;
             s3 = jobProcess_report env d a' s2;
             s4 = jobProcess_sleep s3
         in (a', jobProcess_leave a' s4)))"

section \<open>Poller, dispatcher and workers\<close>

text \<open>
  The program runs the poller (\<^verbatim>\<open>async\<close>), the dispatcher (\<^verbatim>\<open>run\<close>) and one
  goroutine per launched job. A state of the whole program holds the shared state of
  the downloader, its \<open>running\<close> flag, the two channels as queues, and for every
  goroutine where it stands. \<open>sent\<close> and \<open>launched\<close> are history: the jobs sent
  into \<open>JobQueue\<close> and the jobs a goroutine was started for, in order.
\<close>

text \<open>A \<^verbatim>\<open>worker\<close>; its \<^verbatim>\<open>jobQueue\<close> channel is never used.\<close>

record worker =
  ID :: nat

text \<open>
  Where a job's goroutine stands in
  \<^verbatim>\<open>jobFunc := d.jobProcess(a); jobFunc(); d.downWorkerQueue <- w\<close>: the step it takes next.
\<close>

datatype phase = Entering | Creating | Reporting | Sleeping | Leaving | Returning

text \<open>
  A goroutine started by the \<^verbatim>\<open>go\<close> statement of \<^verbatim>\<open>run\<close>: its arguments
  \<^verbatim>\<open>a\<close> (the pointer's target) and \<^verbatim>\<open>w\<close>, where it stands, the value it read
  into \<^verbatim>\<open>existing\<close>, and the external calls it has made so far, in order.
\<close>

record routine =
  item :: asset
  slot :: worker
  stage :: phase
  existing :: bool
  calls :: "event list"

text \<open>The poller waits for a tick, or is inside \<^verbatim>\<open>Push\<close> with jobs left to send.\<close>

datatype async_pc = Waiting | Pushing "asset list"

text \<open>
  The dispatcher is before \<^verbatim>\<open>initDownWorker\<close>, at \<^verbatim>\<open>asset := <-d.JobQueue\<close>, or
  holds an asset at \<^verbatim>\<open>wrk := <-d.downWorkerQueue\<close>.
\<close>

datatype run_pc = Starting | Receiving | Acquiring asset

record system =
  shared :: state
  running :: bool
  JobQueue :: "asset list"
  downWorkerQueue :: "worker list"
  async_at :: async_pc
  run_at :: run_pc
  routines :: "routine list"
  sent :: "asset list"
  launched :: "asset list"

text \<open>\<^verbatim>\<open>JobQueue\<close> is made with capacity 1, \<^verbatim>\<open>downWorkerQueue\<close> with \<open>concurrent\<close>.\<close>

definition JobQueue_cap :: nat where
  "JobQueue_cap = 1"

text \<open>
  The program as \<^verbatim>\<open>newDownloader\<close> leaves it, before \<^verbatim>\<open>go downloader.async()\<close>
  and \<^verbatim>\<open>downloader.run()\<close>: both channels empty, the flag clear, no goroutine.
\<close>

definition newDownloader :: "state \<Rightarrow> system" where
  "newDownloader s =
     \<lparr>shared = s, running = False, JobQueue = [], downWorkerQueue = [],
      async_at = Waiting, run_at = Starting, routines = [], sent = [], launched = []\<rparr>"

text \<open>
  One pass of the \<^verbatim>\<open>case <-ticker.C\<close> branch of \<^verbatim>\<open>async\<close>, up to the call of
  \<^verbatim>\<open>Push\<close>. The argument is what \<^verbatim>\<open>getJobs()\<close> returns if it is called.
\<close>

definition async_tick :: "(error + asset list) \<Rightarrow> system \<Rightarrow> system option" where
  "async_tick r sys =
     (if async_at sys \<noteq> Waiting then None
      else if running sys then Some sys
      else
        (let sys1 = sys\<lparr>running := True, shared := emit EvGetJobs (shared sys)\<rparr> in
         case r of
           Inl e \<Rightarrow> Some sys1
         | Inr assets \<Rightarrow>
             if length assets = 0 then Some (sys1\<lparr>running := False\<rparr>)
             else Some (sys1\<lparr>async_at := Pushing assets\<rparr>)))"

text \<open>\<^verbatim>\<open>Push\<close>: one send \<^verbatim>\<open>d.JobQueue <- j\<close>, which needs room in the channel.\<close>

definition Push_send :: "system \<Rightarrow> system option" where
  "Push_send sys =
     (case async_at sys of
        Pushing (j # js) \<Rightarrow>
          if length (JobQueue sys) < JobQueue_cap
          then Some (sys\<lparr>JobQueue := JobQueue sys @ [j], sent := sent sys @ [j],
                         async_at := Pushing js\<rparr>)
          else None
      | _ \<Rightarrow> None)"

text \<open>\<^verbatim>\<open>Push\<close> after its loop: \<^verbatim>\<open>d.running = false\<close>, and back to the ticker.\<close>

definition Push_return :: "system \<Rightarrow> system option" where
  "Push_return sys =
     (case async_at sys of
        Pushing [] \<Rightarrow> Some (sys\<lparr>running := False, async_at := Waiting\<rparr>)
      | _ \<Rightarrow> None)"

text \<open>\<^verbatim>\<open>initDownWorker\<close>: workers 0 to \<open>concurrent - 1\<close> are sent into the pool.\<close>

definition initDownWorker :: "downloader \<Rightarrow> system \<Rightarrow> system" where
  "initDownWorker d sys =
     sys\<lparr>downWorkerQueue := downWorkerQueue sys @ map (\<lambda>i. \<lparr>ID = i\<rparr>) [0..<concurrent d]\<rparr>"

definition run_init :: "downloader \<Rightarrow> system \<Rightarrow> system option" where
  "run_init d sys =
     (if run_at sys = Starting then Some ((initDownWorker d sys)\<lparr>run_at := Receiving\<rparr>)
      else None)"

text \<open>\<^verbatim>\<open>asset := <-d.JobQueue\<close>.\<close>

definition run_receive :: "system \<Rightarrow> system option" where
  "run_receive sys =
     (case run_at sys of
        Receiving \<Rightarrow>
          (case JobQueue sys of
             a # q \<Rightarrow> Some (sys\<lparr>JobQueue := q, run_at := Acquiring a\<rparr>)
           | [] \<Rightarrow> None)
      | _ \<Rightarrow> None)"

text \<open>\<^verbatim>\<open>wrk := <-d.downWorkerQueue\<close> and the \<^verbatim>\<open>go\<close> statement.\<close>

definition fresh :: "asset \<Rightarrow> worker \<Rightarrow> routine" where
  "fresh a w = \<lparr>item = a, slot = w, stage = Entering, existing = False, calls = []\<rparr>"

definition run_launch :: "system \<Rightarrow> system option" where
  "run_launch sys =
     (case run_at sys of
        Acquiring a \<Rightarrow>
          (case downWorkerQueue sys of
             w # ws \<Rightarrow>
               Some (sys\<lparr>downWorkerQueue := ws, routines := routines sys @ [fresh a w],
                         launched := launched sys @ [a], run_at := Receiving\<rparr>)
           | [] \<Rightarrow> None)
      | _ \<Rightarrow> None)"

text \<open>The calls that a step added to the trace.\<close>

definition since :: "state \<Rightarrow> state \<Rightarrow> event list" where
  "since s s' = drop (length (trace s)) (trace s')"

text \<open>
  The next statement of \<^verbatim>\<open>jobFunc\<close> for a goroutine that has not yet returned from
  it: the locked test and insertion, \<^verbatim>\<open>d.create\<close>, \<^verbatim>\<open>pushResult\<close>,
  \<^verbatim>\<open>time.Sleep\<close>, the locked \<^verbatim>\<open>delete\<close>. The goroutine's own list of calls grows
  by what the statement added to the trace.
\<close>

definition advance :: "env \<Rightarrow> downloader \<Rightarrow> routine \<Rightarrow> state \<Rightarrow> routine \<times> state" where
  "advance env d r s =
     (case stage r of
        Entering \<Rightarrow>
          (let (ex, s1) = jobProcess_enter (item r) s in
           (r\<lparr>stage := (if ex then Returning else Creating), existing := ex,
              calls := calls r @ since s s1\<rparr>, s1))
      | Creating \<Rightarrow>
          (let (res, a', s1) = create env d (item r) s in
           (r\<lparr>item := a', stage := Reporting, calls := calls r @ since s s1\<rparr>, s1))
      | Reporting \<Rightarrow>
          (let s1 = jobProcess_report env d (item r) s in
           (r\<lparr>stage := Sleeping, calls := calls r @ since s s1\<rparr>, s1))
      | Sleeping \<Rightarrow>
          (let s1 = jobProcess_sleep s in
           (r\<lparr>stage := Leaving, calls := calls r @ since s s1\<rparr>, s1))
      | Leaving \<Rightarrow>
          (let s1 = jobProcess_leave (item r) s in
           (r\<lparr>stage := Returning, calls := calls r @ since s s1\<rparr>, s1))
      | Returning \<Rightarrow> (r, s))"

text \<open>The next \<open>n\<close> statements of \<^verbatim>\<open>jobFunc\<close>, run without interruption.\<close>

fun advances :: "env \<Rightarrow> downloader \<Rightarrow> nat \<Rightarrow> routine \<Rightarrow> state \<Rightarrow> routine \<times> state" where
  "advances env d 0 r s = (r, s)"
| "advances env d (Suc n) r s = (let (r', s') = advance env d r s in advances env d n r' s')"

text \<open>
  One step of the goroutine at position \<open>i\<close>: the next statement of
  \<^verbatim>\<open>jobFunc\<close>, or, once \<^verbatim>\<open>jobFunc()\<close> has returned, the send
  \<^verbatim>\<open>d.downWorkerQueue <- w\<close>, which needs room in the channel and ends the goroutine.
\<close>

definition routine_step :: "env \<Rightarrow> downloader \<Rightarrow> nat \<Rightarrow> system \<Rightarrow> system option" where
  "routine_step env d i sys =
     (if i < length (routines sys) then
        (if stage (routines sys ! i) = Returning then
           (if length (downWorkerQueue sys) < concurrent d
            then Some (sys\<lparr>downWorkerQueue := downWorkerQueue sys @ [slot (routines sys ! i)],
                           routines := take i (routines sys) @ drop (Suc i) (routines sys)\<rparr>)
            else None)
         else
           (let (r', s1) = advance env d (routines sys ! i) (shared sys) in
            Some (sys\<lparr>shared := s1, routines := (routines sys)[i := r']\<rparr>)))
      else None)"

text \<open>
  What can happen next: the ticker fires (with the answer \<^verbatim>\<open>getJobs\<close> would give), the
  poller or the dispatcher moves, or one of the goroutines does.
\<close>

datatype action =
    Tick "error + asset list"
  | PushSend
  | PushReturn
  | RunInit
  | RunReceive
  | RunLaunch
  | Routine nat

fun step :: "env \<Rightarrow> downloader \<Rightarrow> action \<Rightarrow> system \<Rightarrow> system option" where
  "step env d (Tick r) sys = async_tick r sys"
| "step env d PushSend sys = Push_send sys"
| "step env d PushReturn sys = Push_return sys"
| "step env d RunInit sys = run_init d sys"
| "step env d RunReceive sys = run_receive sys"
| "step env d RunLaunch sys = run_launch sys"
| "step env d (Routine i) sys = routine_step env d i sys"

text \<open>A schedule is a list of actions; it runs as long as every action can be taken.\<close>

fun exec :: "env \<Rightarrow> downloader \<Rightarrow> action list \<Rightarrow> system \<Rightarrow> system option" where
  "exec env d [] sys = Some sys"
| "exec env d (a # acts) sys =
     (case step env d a sys of None \<Rightarrow> None | Some sys' \<Rightarrow> exec env d acts sys')"

section \<open>Notions used in the statements\<close>

text \<open>
  The candidate directory that \<^verbatim>\<open>getOutPath\<close> computes for the rune \<open>c\<close>:
  \<^verbatim>\<open>filepath.Join(BackupOutPath, fmt.Sprintf("%s%c", dir, c))\<close>.
\<close>

definition candidate :: "string \<Rightarrow> nat \<Rightarrow> string" where
  "candidate dir c = Join BackupOutPath (dir @ [char_of c])"

text \<open>The asset the dispatcher holds while it waits for a worker, if any.\<close>

definition held :: "system \<Rightarrow> asset list" where
  "held sys = (case run_at sys of Acquiring a \<Rightarrow> [a] | _ \<Rightarrow> [])"

text \<open>The worker ids in the pool followed by those held by the running goroutines.\<close>

definition slot_ids :: "system \<Rightarrow> nat list" where
  "slot_ids sys = map ID (downWorkerQueue sys) @ map (\<lambda>r. ID (slot r)) (routines sys)"

text \<open>
  What every state of a run satisfies: the workers are all in the pool or with a
  goroutine once \<^verbatim>\<open>initDownWorker\<close> has run, no worker is in two places, the assets
  sent are the assets launched, then the one held, then the ones queued, and the queue
  respects its capacity.
\<close>

definition pool_inv :: "downloader \<Rightarrow> system \<Rightarrow> bool" where
  "pool_inv d sys \<longleftrightarrow>
     length (routines sys) + length (downWorkerQueue sys) =
       (if run_at sys = Starting then 0 else concurrent d)
     \<and> distinct (slot_ids sys)
     \<and> sent sys = launched sys @ held sys @ JobQueue sys
     \<and> length (JobQueue sys) \<le> JobQueue_cap"

text \<open>
  A goroutine that has inserted its content id into \<open>downloading\<close> and has not yet
  removed it: it stands before \<^verbatim>\<open>create\<close>, the report, the sleep or the removal.
\<close>

definition owning :: "routine \<Rightarrow> bool" where
  "owning r \<longleftrightarrow>
     stage r = Creating \<or> stage r = Reporting \<or> stage r = Sleeping \<or> stage r = Leaving"

text \<open>The content ids of these goroutines, in the order of the goroutines.\<close>

definition owners :: "system \<Rightarrow> string list" where
  "owners sys = map (\<lambda>r. Cid (item r)) (filter owning (routines sys))"

text \<open>The set \<open>downloading\<close> holds exactly these content ids, each for one goroutine.\<close>

definition own_inv :: "system \<Rightarrow> bool" where
  "own_inv sys \<longleftrightarrow> distinct (owners sys) \<and> set (owners sys) = downloading (shared sys)"

text \<open>
  The first call of \<^verbatim>\<open>create\<close>: \<^verbatim>\<open>getOutPath\<close> stats the first candidate directory
  of the job's day.
\<close>

definition first_call :: "env \<Rightarrow> asset \<Rightarrow> event" where
  "first_call env a = EvStat (Join BackupOutPath (Format env (EndTime a) @ ''a''))"

text \<open>
  What the calls made so far by a goroutine look like at each of its statements. Before
  \<^verbatim>\<open>create\<close> it has made none. After \<^verbatim>\<open>create\<close> they begin with the stat of the
  first candidate directory; after the report they end with the report of the job as
  \<^verbatim>\<open>create\<close> left it; after the sleep they end with that report and the sleep. A
  goroutine that is about to return its worker has either found its content id taken
  and made no call, or has made all of these.
\<close>

definition life :: "env \<Rightarrow> downloader \<Rightarrow> routine \<Rightarrow> bool" where
  "life env d r \<longleftrightarrow>
     (case stage r of
        Entering \<Rightarrow> calls r = []
      | Creating \<Rightarrow> \<not> existing r \<and> calls r = []
      | Reporting \<Rightarrow> \<not> existing r \<and> prefix [first_call env (item r)] (calls r)
      | Sleeping \<Rightarrow>
          \<not> existing r \<and> prefix [first_call env (item r)] (calls r) \<and>
          suffix [EvPushResult (token d) [item r]] (calls r)
      | Leaving \<Rightarrow>
          \<not> existing r \<and> prefix [first_call env (item r)] (calls r) \<and>
          suffix [EvPushResult (token d) [item r], EvSleep] (calls r)
      | Returning \<Rightarrow>
          (existing r \<and> calls r = []) \<or>
          (\<not> existing r \<and> prefix [first_call env (item r)] (calls r) \<and>
           suffix [EvPushResult (token d) [item r], EvSleep] (calls r)))"

text \<open>
  Every goroutine is as \<open>life\<close> says, and its calls occur in the trace of the shared
  state in the order it made them.
\<close>

definition life_inv :: "env \<Rightarrow> downloader \<Rightarrow> system \<Rightarrow> bool" where
  "life_inv env d sys \<longleftrightarrow>
     (\<forall>r \<in> set (routines sys). life env d r \<and> subseq (calls r) (trace (shared sys)))"

text \<open>The poller waits for a tick with the \<open>running\<close> flag set.\<close>

definition stuck :: "system \<Rightarrow> bool" where
  "stuck sys \<longleftrightarrow> running sys \<and> async_at sys = Waiting"

text \<open>
  The address that \<^verbatim>\<open>request\<close> asks: the scheme is added when the source address has
  none, then the path of the content id and the format.
\<close>

definition endpoint_of :: "string \<Rightarrow> string \<Rightarrow> string" where
  "endpoint_of url cid =
     (if \<not> prefix ''http'' url then ''https://'' else []) @ url @ ''/ipfs/'' @ cid @ ''?format=car''"

text \<open>
  A source is refused when the request for it cannot be built, the transport fails, or
  the response has a status other than 200.
\<close>

definition refused :: "env \<Rightarrow> string \<Rightarrow> source \<Rightarrow> bool" where
  "refused env cid src \<longleftrightarrow>
     (case NewRequest env (endpoint_of (Address src) cid) of
        Some e \<Rightarrow> True
      | None \<Rightarrow>
         (case Do env (endpoint_of (Address src) cid) of
            Inl e \<Rightarrow> True
          | Inr resp \<Rightarrow> StatusCode resp \<noteq> 200))"

text \<open>A source is accepted with a body when the response has status 200 and that body.\<close>

definition accepted :: "env \<Rightarrow> string \<Rightarrow> source \<Rightarrow> string \<Rightarrow> bool" where
  "accepted env cid src body \<longleftrightarrow>
     (case NewRequest env (endpoint_of (Address src) cid) of
        Some e \<Rightarrow> False
      | None \<Rightarrow>
         (case Do env (endpoint_of (Address src) cid) of
            Inl e \<Rightarrow> False
          | Inr resp \<Rightarrow> StatusCode resp = 200 \<and> Body resp = body))"

text \<open>
  The calls of one \<^verbatim>\<open>request\<close>: the construction of the request, and the transport
  if the construction succeeded.
\<close>

definition attempt :: "env \<Rightarrow> string \<Rightarrow> source \<Rightarrow> event list" where
  "attempt env cid src =
     (case NewRequest env (endpoint_of (Address src) cid) of
        Some e \<Rightarrow> [EvNewRequest (endpoint_of (Address src) cid)]
      | None \<Rightarrow> [EvNewRequest (endpoint_of (Address src) cid),
                 EvDo (endpoint_of (Address src) cid)])"

section \<open>Concrete environments and states\<close>

text \<open>
  An environment in which the file system and the result endpoint work, the scheduler
  names three sources, and only the third one answers.
\<close>

definition env_ok :: env where
  "env_ok =
     \<lparr>Format = (\<lambda>t. ''20240101''),
      Mkdir = (\<lambda>p. None),
      Walk = (\<lambda>p. []),
      GetAssetSourceDownloadInfo = (\<lambda>u c.
        Inr [\<lparr>Address = ''n1.example'', Tk = ''t1''\<rparr>,
             \<lparr>Address = ''n2.example'', Tk = ''t2''\<rparr>,
             \<lparr>Address = ''n3.example'', Tk = ''t3''\<rparr>]),
      NewRequest = (\<lambda>e. None),
      Do = (\<lambda>e. if e = ''https://n3.example/ipfs/cid1?format=car''
                 then Inr \<lparr>StatusCode = 200, Status = ''200 OK'', Body = ''carbytes''\<rparr>
                 else Inl (ExtError ''connection refused'')),
      Create = (\<lambda>p. None),
      Copy = (\<lambda>p b. None),
      DoPost = (\<lambda>t js. Inr \<lparr>StatusCode = 200, Status = ''200 OK'', Body = []\<rparr>)\<rparr>"


text \<open>The same with a storage root that cannot be written to.\<close>

definition env_denied :: env where
  "env_denied = env_ok\<lparr>Mkdir := (\<lambda>p. Some (PathError ''mkdir'' p EACCES))\<rparr>"

text \<open>The same with every source answering and a disk that is full.\<close>

definition env_nospace :: env where
  "env_nospace =
     env_ok\<lparr>Do := (\<lambda>e. Inr \<lparr>StatusCode = 200, Status = ''200 OK'', Body = ''carbytes''\<rparr>),
            Copy := (\<lambda>p b. Some (3, PathError ''write'' p ENOSPC))\<rparr>"

text \<open>The same with no source answering.\<close>

definition env_down :: env where
  "env_down = env_ok\<lparr>Do := (\<lambda>e. Inl (ExtError ''connection refused''))\<rparr>"

text \<open>
  The same with the first source refusing the connection, the second answering with
  status 503 and the third with status 200.
\<close>

definition env_mixed :: env where
  "env_mixed =
     env_ok\<lparr>Do := (\<lambda>e. if e = ''https://n1.example/ipfs/cid1?format=car''
                        then Inl (ExtError ''connection refused'')
                      else if e = ''https://n2.example/ipfs/cid1?format=car''
                        then Inr \<lparr>StatusCode = 503, Status = ''503 Service Unavailable'',
                                  Body = ''busy''\<rparr>
                      else Inr \<lparr>StatusCode = 200, Status = ''200 OK'', Body = ''carbytes''\<rparr>)\<rparr>"

definition s_empty :: state where
  "s_empty = \<lparr>dirSize = Map.empty, downloading = {}, dirs = {}, files = Map.empty, trace = []\<rparr>"

text \<open>Every path exists and is cached at the threshold.\<close>

definition s_full :: state where
  "s_full = \<lparr>dirSize = (\<lambda>p. Some maxSingleDirSize), downloading = {}, dirs = UNIV,
              files = Map.empty, trace = []\<rparr>"

text \<open>The first directory of day 20240101 exists and is cached at the given size.\<close>

definition s_cached :: "int64 \<Rightarrow> state" where
  "s_cached S =
     \<lparr>dirSize = [''/carfile/titan/20240101a'' \<mapsto> S], downloading = {},
      dirs = {''/carfile/titan/20240101a''}, files = Map.empty, trace = []\<rparr>"

definition s_downloading :: state where
  "s_downloading = s_empty\<lparr>downloading := {''cid1''}\<rparr>"

definition sched1 :: scheduler where
  "sched1 = \<lparr>Uuid = ''http://scheduler1'', AreaId = ''area1''\<rparr>"

text \<open>The downloader of \<^verbatim>\<open>main.go\<close>, with concurrency 5.\<close>

definition d_main :: downloader where
  "d_main = \<lparr>schedulers = [sched1], areaId = ''area1'', token = ''tok'', concurrent = 5\<rparr>"

definition job1 :: asset where
  "job1 = \<lparr>Cid = ''cid1'', TotalSize = 20 * GiB, EndTime = 0, Event = 0, Path = []\<rparr>"

definition job_of :: "string \<Rightarrow> asset" where
  "job_of c = \<lparr>Cid = c, TotalSize = GiB, EndTime = 0, Event = 0, Path = []\<rparr>"

text \<open>Six jobs from one poll; the second has the content id of the first.\<close>

definition burst :: "asset list" where
  "burst = [job1, job1, job_of ''cid3'', job_of ''cid4'', job_of ''cid5'', job_of ''cid6'']"

text \<open>
  A schedule: the pool is filled, a poll brings the six jobs, five are sent, received
  and launched, the sixth is sent and received, \<^verbatim>\<open>Push\<close> returns, the first goroutine
  enters and the second finds the content id taken.
\<close>

definition acts_burst :: "action list" where
  "acts_burst =
     [RunInit, Tick (Inr burst),
      PushSend, RunReceive, RunLaunch,
      PushSend, RunReceive, RunLaunch,
      PushSend, RunReceive, RunLaunch,
      PushSend, RunReceive, RunLaunch,
      PushSend, RunReceive, RunLaunch,
      PushSend, RunReceive, PushReturn,
      Routine 0, Routine 1]"

text \<open>The same, and then the first goroutine runs up to the return of its worker.\<close>

definition acts_life :: "action list" where
  "acts_life = acts_burst @ [Routine 0, Routine 0, Routine 0, Routine 0]"

text \<open>The state after \<open>acts_burst\<close>.\<close>

definition sys_burst :: system where
  "sys_burst =
     \<lparr>shared = s_empty\<lparr>downloading := {''cid1''}, trace := [EvGetJobs]\<rparr>,
      running = False, JobQueue = [], downWorkerQueue = [],
      async_at = Waiting, run_at = Acquiring (job_of ''cid6''),
      routines = [(fresh job1 \<lparr>ID = 0\<rparr>)\<lparr>stage := Creating\<rparr>,
                  (fresh job1 \<lparr>ID = 1\<rparr>)\<lparr>stage := Returning, existing := True\<rparr>,
                  fresh (job_of ''cid3'') \<lparr>ID = 2\<rparr>,
                  fresh (job_of ''cid4'') \<lparr>ID = 3\<rparr>,
                  fresh (job_of ''cid5'') \<lparr>ID = 4\<rparr>],
      sent = burst, launched = take 5 burst\<rparr>"

text \<open>The calls of the first goroutine between its entry and the return of its worker.\<close>

definition calls_job1 :: "event list" where
  "calls_job1 =
     [EvStat ''/carfile/titan/20240101a'', EvMkdir ''/carfile/titan/20240101a'',
      EvGetInfo ''http://scheduler1'' ''cid1'',
      EvNewRequest ''https://n1.example/ipfs/cid1?format=car'',
      EvDo ''https://n1.example/ipfs/cid1?format=car'',
      EvNewRequest ''https://n2.example/ipfs/cid1?format=car'',
      EvDo ''https://n2.example/ipfs/cid1?format=car'',
      EvNewRequest ''https://n3.example/ipfs/cid1?format=car'',
      EvDo ''https://n3.example/ipfs/cid1?format=car'',
      EvCreate ''/carfile/titan/20240101a/cid1.car'',
      EvCopy ''/carfile/titan/20240101a/cid1.car'',
      EvPushResult ''tok'' [job1\<lparr>Path := ''/carfile/titan/20240101a''\<rparr>],
      EvSleep]"

text \<open>The state after \<open>acts_life\<close>.\<close>

definition sys_life :: system where
  "sys_life =
     sys_burst
       \<lparr>shared :=
          \<lparr>dirSize = [''/carfile/titan/20240101a'' \<mapsto> 20 * GiB], downloading = {},
           dirs = {''/carfile/titan/20240101a''},
           files = [''/carfile/titan/20240101a/cid1.car'' \<mapsto> ''carbytes''],
           trace = EvGetJobs # calls_job1\<rparr>,
        routines :=
          [\<lparr>item = job1\<lparr>Path := ''/carfile/titan/20240101a''\<rparr>, slot = \<lparr>ID = 0\<rparr>,
            stage = Returning, existing = False, calls = calls_job1\<rparr>,
           \<lparr>item = job1, slot = \<lparr>ID = 1\<rparr>, stage = Returning, existing = True, calls = []\<rparr>,
           fresh (job_of ''cid3'') \<lparr>ID = 2\<rparr>,
           fresh (job_of ''cid4'') \<lparr>ID = 3\<rparr>,
           fresh (job_of ''cid5'') \<lparr>ID = 4\<rparr>]\<rparr>"

definition sys_stuck :: system where
  "sys_stuck = (newDownloader s_empty)\<lparr>running := True, shared := s_empty\<lparr>trace := [EvGetJobs]\<rparr>\<rparr>"

section \<open>The directory allocator\<close>

lemma emit_fields [simp]:
  "dirs (emit e s) = dirs s" "dirSize (emit e s) = dirSize s"
  "downloading (emit e s) = downloading s" "files (emit e s) = files s"
  "trace (emit e s) = trace s @ [e]"
  by (simp_all add: emit_def)

lemma createOrGetSize_cached:
  "dir \<in> dirs s \<Longrightarrow> dirSize s dir = Some S \<Longrightarrow>
   createOrGetSize env dir s = ((S, None), emit (EvStat dir) s)"
  by (simp add: createOrGetSize_def Exist_def emit_def)

lemma createOrGetSize_missing:
  "dir \<notin> dirs s \<Longrightarrow>
   createOrGetSize env dir s =
     (case Mkdir env dir of
        None \<Rightarrow> ((0, None), emit (EvMkdir dir) (emit (EvStat dir) s\<lparr>dirs := insert dir (dirs s)\<rparr>))
      | Some e \<Rightarrow> ((0, Some e), emit (EvMkdir dir)
           (if e = PathError ''mkdir'' dir EEXIST
            then emit (EvStat dir) s\<lparr>dirs := insert dir (dirs s)\<rparr> else emit (EvStat dir) s)))"
  by (simp add: createOrGetSize_def Exist_def emit_def os_Mkdir_def split: option.splits)

lemma zero_below_max: "word_sless 0 maxSingleDirSize"
  by (simp add: maxSingleDirSize_def word_sless_alt)

text \<open>One turn of the loop, by what it finds at the candidate.\<close>

lemma loop_step_full:
  assumes "c < 122" "candidate dir c \<in> dirs s" "dirSize s (candidate dir c) = Some S"
    "\<not> word_sless S maxSingleDirSize"
  shows "getOutPath_loop env dir c out s =
         getOutPath_loop env dir (c + 1) (candidate dir c) (emit (EvStat (candidate dir c)) s)"
  using assms
  by (subst getOutPath_loop.simps)
     (simp add: Let_def candidate_def [symmetric] createOrGetSize_cached)

lemma loop_step_free:
  assumes "c < 122" "candidate dir c \<in> dirs s" "dirSize s (candidate dir c) = Some S"
    "word_sless S maxSingleDirSize"
  shows "getOutPath_loop env dir c out s =
         ((candidate dir c, None), emit (EvStat (candidate dir c)) s)"
  using assms
  by (subst getOutPath_loop.simps)
     (simp add: Let_def candidate_def [symmetric] createOrGetSize_cached)

lemma loop_step_missing:
  assumes "c < 122" "candidate dir c \<notin> dirs s"
  shows "getOutPath_loop env dir c out s =
     (case Mkdir env (candidate dir c) of
        None \<Rightarrow> ((candidate dir c, None),
                  emit (EvMkdir (candidate dir c)) (emit (EvStat (candidate dir c)) s
                     \<lparr>dirs := insert (candidate dir c) (dirs s)\<rparr>))
      | Some e \<Rightarrow> (([], Some e), snd (createOrGetSize env (candidate dir c) s)))"
  using assms
  by (subst getOutPath_loop.simps)
     (simp add: Let_def candidate_def [symmetric] createOrGetSize_missing zero_below_max
           split: option.splits)

text \<open>
  When every candidate from \<open>c\<close> on exists and is cached at or over the threshold,
  the loop stats each of them up to rune 121 and returns the last one.
\<close>

lemma loop_all_full:
  assumes "\<forall>k. c \<le> k \<and> k < 122 \<longrightarrow> candidate dir k \<in> dirs s \<and>
             (\<exists>S. dirSize s (candidate dir k) = Some S \<and> \<not> word_sless S maxSingleDirSize)"
  shows "getOutPath_loop env dir c out s =
           ((if c < 122 then candidate dir 121 else out, None),
            s\<lparr>trace := trace s @ map (\<lambda>k. EvStat (candidate dir k)) [c..<122]\<rparr>)"
  using assms
proof (induction "122 - c" arbitrary: c out s)
  case 0
  then have "\<not> c < 122" by simp
  then show ?case by (subst getOutPath_loop.simps) simp
next
  case (Suc n)
  then have c: "c < 122" by simp
  from Suc.prems c obtain S where
    S: "candidate dir c \<in> dirs s" "dirSize s (candidate dir c) = Some S"
       "\<not> word_sless S maxSingleDirSize"
    by auto
  have n: "n = 122 - (c + 1)" using Suc.hyps(2) by simp
  have rest: "\<forall>k. c + 1 \<le> k \<and> k < 122 \<longrightarrow>
      candidate dir k \<in> dirs (emit (EvStat (candidate dir c)) s) \<and>
      (\<exists>S. dirSize (emit (EvStat (candidate dir c)) s) (candidate dir k) = Some S \<and>
           \<not> word_sless S maxSingleDirSize)"
    using Suc.prems by simp
  have upt: "[c..<122] = c # [c + 1..<122]"
    using c by (simp add: upt_conv_Cons)
  have step: "getOutPath_loop env dir c out s =
      getOutPath_loop env dir (c + 1) (candidate dir c) (emit (EvStat (candidate dir c)) s)"
    by (rule loop_step_full [OF c S])
  have tl: "getOutPath_loop env dir (c + 1) (candidate dir c) (emit (EvStat (candidate dir c)) s) =
      ((if c + 1 < 122 then candidate dir 121 else candidate dir c, None),
       emit (EvStat (candidate dir c)) s
         \<lparr>trace := trace (emit (EvStat (candidate dir c)) s) @
            map (\<lambda>k. EvStat (candidate dir k)) [c + 1..<122]\<rparr>)"
    by (rule Suc.hyps(1) [OF n rest])
  have last: "c < 121 \<or> c = 121" using c by arith
  show ?case
    unfolding step tl using c last by (auto simp: upt emit_def)
qed

lemma candidate_a: "candidate dir 97 = Join BackupOutPath (dir @ ''a'')"
  by (simp add: candidate_def char_of_def bit_iff_odd)

lemma candidate_b: "candidate dir 98 = Join BackupOutPath (dir @ ''b'')"
  by (simp add: candidate_def char_of_def bit_iff_odd)

lemma getOutPath_first_below:
  assumes "Join BackupOutPath (dir @ ''a'') \<in> dirs s"
      and "dirSize s (Join BackupOutPath (dir @ ''a'')) = Some S"
      and "word_sless S maxSingleDirSize"
  shows "getOutPath env dir s =
           ((Join BackupOutPath (dir @ ''a''), None),
            emit (EvStat (Join BackupOutPath (dir @ ''a''))) s)"
  unfolding getOutPath_def candidate_a [symmetric]
  by (rule loop_step_free) (use assms in \<open>simp_all add: candidate_a\<close>)

lemma letters_a_to_y: "map char_of [97..<122::nat] = ''abcdefghijklmnopqrstuvwxy''"
  by code_simp

text \<open>
  Claim C3 (the allocator examines the 26 suffixes a to z in order and, when all are at
  or over the threshold, returns the path with suffix z). The code does not do this: the
  loop condition is \<^verbatim>\<open>c < 'z'\<close>, so the last rune examined is \<^verbatim>\<open>'y'\<close>. With every
  directory of the bucket at the threshold, \<^verbatim>\<open>getOutPath\<close> stats the 25 candidates
  a to y, never the one with suffix z, and returns the path with suffix y.
\<close>

theorem getOutPath_all_full:
  "getOutPath env_ok ''20240101'' s_full =
     ((''/carfile/titan/20240101y'', None),
      s_full\<lparr>trace := map (\<lambda>c. EvStat (''/carfile/titan/20240101'' @ [c]))
                          ''abcdefghijklmnopqrstuvwxy''\<rparr>)"
proof -
  have full: "\<forall>k. 97 \<le> k \<and> k < 122 \<longrightarrow> candidate ''20240101'' k \<in> dirs s_full \<and>
      (\<exists>S. dirSize s_full (candidate ''20240101'' k) = Some S \<and> \<not> word_sless S maxSingleDirSize)"
    by (simp add: s_full_def)
  have y: "candidate ''20240101'' 121 = ''/carfile/titan/20240101y''"
    by (simp add: candidate_def Join_def BackupOutPath_def char_of_def bit_iff_odd)
  have evs: "map (\<lambda>k. EvStat (candidate ''20240101'' k)) [97..<122] =
             map (\<lambda>c. EvStat (''/carfile/titan/20240101'' @ [c])) (map char_of [97..<122::nat])"
    by (simp add: candidate_def Join_def BackupOutPath_def)
  show ?thesis
    unfolding getOutPath_def loop_all_full [OF full] evs letters_a_to_y
    by (simp add: y s_full_def)
qed

text \<open>
  Claim C6. Let the first candidate directory of a bucket (suffix a) exist with cached
  size \<open>S\<close>. If \<open>S\<close> is strictly below \<open>maxSingleDirSize\<close> (18 GiB, signed
  comparison), \<^verbatim>\<open>getOutPath\<close> returns that directory after a single stat. If not, it
  goes on with the next rune (98, suffix b); and if that directory is not on disk and
  \<^verbatim>\<open>os.Mkdir\<close> succeeds, \<^verbatim>\<open>createOrGetSize\<close> reports size 0 for it and
  \<^verbatim>\<open>getOutPath\<close> returns it at once: the directory is on disk afterwards and nothing
  else was looked at.
\<close>

theorem getOutPath_threshold:
  assumes "Join BackupOutPath (dir @ ''a'') \<in> dirs s"
      and "dirSize s (Join BackupOutPath (dir @ ''a'')) = Some S"
  shows "(word_sless S maxSingleDirSize \<longrightarrow>
            getOutPath env dir s =
              ((Join BackupOutPath (dir @ ''a''), None),
               emit (EvStat (Join BackupOutPath (dir @ ''a''))) s))
       \<and> (\<not> word_sless S maxSingleDirSize \<longrightarrow>
            getOutPath env dir s =
              getOutPath_loop env dir 98 (Join BackupOutPath (dir @ ''a''))
                (emit (EvStat (Join BackupOutPath (dir @ ''a''))) s)
          \<and> (Join BackupOutPath (dir @ ''b'') \<notin> dirs s \<and>
               Mkdir env (Join BackupOutPath (dir @ ''b'')) = None \<longrightarrow>
               fst (createOrGetSize env (Join BackupOutPath (dir @ ''b''))
                      (emit (EvStat (Join BackupOutPath (dir @ ''a''))) s)) = (0, None)
             \<and> getOutPath env dir s =
                 ((Join BackupOutPath (dir @ ''b''), None),
                  emit (EvMkdir (Join BackupOutPath (dir @ ''b'')))
                    (emit (EvStat (Join BackupOutPath (dir @ ''b'')))
                      (emit (EvStat (Join BackupOutPath (dir @ ''a''))) s))
                  \<lparr>dirs := insert (Join BackupOutPath (dir @ ''b'')) (dirs s)\<rparr>)))"
proof -
  have a: "candidate dir 97 \<in> dirs s" "dirSize s (candidate dir 97) = Some S"
    using assms by (simp_all add: candidate_a)
  have low: "word_sless S maxSingleDirSize \<Longrightarrow>
      getOutPath env dir s = ((candidate dir 97, None), emit (EvStat (candidate dir 97)) s)"
    unfolding getOutPath_def by (rule loop_step_free [OF _ a]) simp_all
  have high: "\<not> word_sless S maxSingleDirSize \<Longrightarrow>
      getOutPath env dir s =
        getOutPath_loop env dir 98 (candidate dir 97) (emit (EvStat (candidate dir 97)) s)"
    unfolding getOutPath_def using loop_step_full [OF _ a, of env "[]"] by simp
  have new: "candidate dir 98 \<notin> dirs s \<Longrightarrow> Mkdir env (candidate dir 98) = None \<Longrightarrow>
      getOutPath_loop env dir 98 (candidate dir 97) (emit (EvStat (candidate dir 97)) s) =
        ((candidate dir 98, None),
         emit (EvMkdir (candidate dir 98))
           (emit (EvStat (candidate dir 98)) (emit (EvStat (candidate dir 97)) s))
         \<lparr>dirs := insert (candidate dir 98) (dirs s)\<rparr>)"
    by (subst loop_step_missing) (simp_all add: emit_def)
  have zero: "candidate dir 98 \<notin> dirs s \<Longrightarrow> Mkdir env (candidate dir 98) = None \<Longrightarrow>
      fst (createOrGetSize env (candidate dir 98) (emit (EvStat (candidate dir 97)) s)) = (0, None)"
    by (simp add: createOrGetSize_missing)
  show ?thesis
    using low high new zero unfolding candidate_a candidate_b by simp
qed

text \<open>
  Witness for C6: at 17 GiB the first directory is returned; at 18 GiB the second one
  is created and returned.
\<close>

theorem getOutPath_threshold_witness:
  "getOutPath env_ok ''20240101'' (s_cached (17 * GiB)) =
     ((''/carfile/titan/20240101a'', None),
      s_cached (17 * GiB)\<lparr>trace := [EvStat ''/carfile/titan/20240101a'']\<rparr>)
   \<and> getOutPath env_ok ''20240101'' (s_cached (18 * GiB)) =
     ((''/carfile/titan/20240101b'', None),
      s_cached (18 * GiB)
        \<lparr>dirs := {''/carfile/titan/20240101b'', ''/carfile/titan/20240101a''},
         trace := [EvStat ''/carfile/titan/20240101a'', EvStat ''/carfile/titan/20240101b'',
                   EvMkdir ''/carfile/titan/20240101b'']\<rparr>)"
proof -
  have m: "Mkdir env_ok p = None" for p
    by (simp add: env_ok_def)
  have low: "getOutPath env_ok ''20240101'' (s_cached (17 * GiB)) =
     ((''/carfile/titan/20240101a'', None),
      s_cached (17 * GiB)\<lparr>trace := [EvStat ''/carfile/titan/20240101a'']\<rparr>)"
    using getOutPath_threshold [of "''20240101''" "s_cached (17 * GiB)" "17 * GiB" env_ok]
    by (simp add: s_cached_def Join_def BackupOutPath_def emit_def maxSingleDirSize_def GiB_def)
  have T: "(word_sless (18 * GiB) maxSingleDirSize \<longrightarrow>
            getOutPath env_ok ''20240101'' (s_cached (18 * GiB)) =
              ((Join BackupOutPath (''20240101'' @ ''a''), None),
               emit (EvStat (Join BackupOutPath (''20240101'' @ ''a''))) (s_cached (18 * GiB))))
       \<and> (\<not> word_sless (18 * GiB) maxSingleDirSize \<longrightarrow>
            getOutPath env_ok ''20240101'' (s_cached (18 * GiB)) =
              getOutPath_loop env_ok ''20240101'' 98 (Join BackupOutPath (''20240101'' @ ''a''))
                (emit (EvStat (Join BackupOutPath (''20240101'' @ ''a''))) (s_cached (18 * GiB)))
          \<and> (Join BackupOutPath (''20240101'' @ ''b'') \<notin> dirs (s_cached (18 * GiB)) \<and>
               Mkdir env_ok (Join BackupOutPath (''20240101'' @ ''b'')) = None \<longrightarrow>
               fst (createOrGetSize env_ok (Join BackupOutPath (''20240101'' @ ''b''))
                      (emit (EvStat (Join BackupOutPath (''20240101'' @ ''a'')))
                         (s_cached (18 * GiB)))) = (0, None)
             \<and> getOutPath env_ok ''20240101'' (s_cached (18 * GiB)) =
                 ((Join BackupOutPath (''20240101'' @ ''b''), None),
                  emit (EvMkdir (Join BackupOutPath (''20240101'' @ ''b'')))
                    (emit (EvStat (Join BackupOutPath (''20240101'' @ ''b'')))
                      (emit (EvStat (Join BackupOutPath (''20240101'' @ ''a'')))
                         (s_cached (18 * GiB))))
                  \<lparr>dirs := insert (Join BackupOutPath (''20240101'' @ ''b''))
                             (dirs (s_cached (18 * GiB)))\<rparr>)))"
    by (rule getOutPath_threshold [of "''20240101''" "s_cached (18 * GiB)" "18 * GiB" env_ok])
       (simp_all add: s_cached_def Join_def BackupOutPath_def)
  have h1: "\<not> word_sless (18 * GiB) maxSingleDirSize"
    by (simp add: maxSingleDirSize_def GiB_def)
  have h2: "Join BackupOutPath (''20240101'' @ ''b'') \<notin> dirs (s_cached (18 * GiB))"
    by (simp add: s_cached_def Join_def BackupOutPath_def)
  from T h1 h2 m
  have "getOutPath env_ok ''20240101'' (s_cached (18 * GiB)) =
                 ((Join BackupOutPath (''20240101'' @ ''b''), None),
                  emit (EvMkdir (Join BackupOutPath (''20240101'' @ ''b'')))
                    (emit (EvStat (Join BackupOutPath (''20240101'' @ ''b'')))
                      (emit (EvStat (Join BackupOutPath (''20240101'' @ ''a'')))
                         (s_cached (18 * GiB))))
                  \<lparr>dirs := insert (Join BackupOutPath (''20240101'' @ ''b''))
                             (dirs (s_cached (18 * GiB)))\<rparr>)"
    by blast
  then have high: "getOutPath env_ok ''20240101'' (s_cached (18 * GiB)) =
     ((''/carfile/titan/20240101b'', None),
      s_cached (18 * GiB)
        \<lparr>dirs := {''/carfile/titan/20240101b'', ''/carfile/titan/20240101a''},
         trace := [EvStat ''/carfile/titan/20240101a'', EvStat ''/carfile/titan/20240101b'',
                   EvMkdir ''/carfile/titan/20240101b'']\<rparr>)"
    by (simp add: s_cached_def Join_def BackupOutPath_def emit_def)
  show ?thesis using low high by simp
qed




section \<open>The download client\<close>

lemma emits_fields [simp]:
  "dirs (emits es s) = dirs s" "dirSize (emits es s) = dirSize s"
  "downloading (emits es s) = downloading s" "files (emits es s) = files s"
  "trace (emits es s) = trace s @ es"
  by (simp_all add: emits_def)

lemma emits_emits [simp]: "emits es' (emits es s) = emits (es @ es') s"
  by (simp add: emits_def)

lemma emits_Nil [simp]: "emits [] s = s"
  by (simp add: emits_def)

text \<open>
  \<^verbatim>\<open>request\<close> returns an error exactly when the request cannot be built, the
  transport fails, or the status is not 200.
\<close>

lemma request_rejects:
  "isl (fst (request env url cid tk)) \<longleftrightarrow>
     (let endpoint = (if \<not> prefix ''http'' url then ''https://'' else []) @ url @ ''/ipfs/'' @
                     cid @ ''?format=car''
      in case NewRequest env endpoint of
           Some e \<Rightarrow> True
         | None \<Rightarrow> (case Do env endpoint of Inl e \<Rightarrow> True | Inr resp \<Rightarrow> StatusCode resp \<noteq> 200))"
  by (simp add: request_def Let_def split: option.splits sum.splits)

text \<open>Candidates whose request fails are passed over; only their calls are recorded.\<close>

lemma download_loop_rejected:
  "\<forall>src \<in> set pre. isl (fst (request env (Address src) cid (Tk src))) \<Longrightarrow>
   download_loop env out cid sz (pre @ rest) s =
   download_loop env out cid sz rest
     (emits (concat (map (\<lambda>src. snd (request env (Address src) cid (Tk src))) pre)) s)"
proof (induction pre arbitrary: s)
  case Nil
  then show ?case by simp
next
  case (Cons x pre)
  then obtain e es where x: "request env (Address x) cid (Tk x) = (Inl e, es)"
    by (cases "request env (Address x) cid (Tk x)") (auto simp: isl_def)
  show ?case
    using Cons.prems Cons.IH [of "emits es s"] by (simp add: x)
qed

text \<open>A candidate whose request is accepted ends the loop, whatever follows it.\<close>

lemma download_loop_accepted:
  assumes "fst (request env (Address x) cid (Tk x)) = Inr body"
  shows "download_loop env out cid sz (x # post) s =
     (let s1 = emits (snd (request env (Address x) cid (Tk x))) s in
      case Create env (Join out (cid @ ''.car'')) of
        Some e \<Rightarrow> (Some e, emit (EvCreate (Join out (cid @ ''.car''))) s1)
      | None \<Rightarrow>
         (case Copy env (Join out (cid @ ''.car'')) body of
            Some (n, e) \<Rightarrow>
              (Some e, emit (EvCopy (Join out (cid @ ''.car'')))
                 ((emit (EvCreate (Join out (cid @ ''.car''))) s1)
                    \<lparr>files := (files s)(Join out (cid @ ''.car'') \<mapsto> take n body)\<rparr>))
          | None \<Rightarrow>
              (None, dirSize_add out sz (emit (EvCopy (Join out (cid @ ''.car'')))
                 ((emit (EvCreate (Join out (cid @ ''.car''))) s1)
                    \<lparr>files := (files s)(Join out (cid @ ''.car'') \<mapsto> body)\<rparr>)))))"
proof -
  obtain es where x: "request env (Address x) cid (Tk x) = (Inr body, es)"
    using assms by (cases "request env (Address x) cid (Tk x)") auto
  show ?thesis
    by (simp add: x os_Create_def io_Copy_def emit_def emits_def Let_def
          split: option.splits)
qed

text \<open>When no request is accepted the loop falls through to \<^verbatim>\<open>return nil\<close>.\<close>

lemma download_loop_exhausted:
  "\<forall>src \<in> set srcs. isl (fst (request env (Address src) cid (Tk src))) \<Longrightarrow>
   download_loop env out cid sz srcs s =
     (None, emits (concat (map (\<lambda>src. snd (request env (Address src) cid (Tk src))) srcs)) s)"
  using download_loop_rejected [of srcs env cid out sz "[]" s] by simp

text \<open>An empty source list is the "not found" error, after the lookup alone.\<close>

lemma download_empty_list:
  "GetAssetSourceDownloadInfo env (Uuid sched) cid = Inr [] \<Longrightarrow>
   download env sched out cid sz s =
     (Some (ErrorsNew (''CARFile '' @ cid @ '' not found'')), emit (EvGetInfo (Uuid sched) cid) s)"
  by (simp add: download_def)

lemma download_nonempty:
  "GetAssetSourceDownloadInfo env (Uuid sched) cid = Inr srcs \<Longrightarrow> srcs \<noteq> [] \<Longrightarrow>
   download env sched out cid sz s =
     download_loop env out cid sz srcs (emit (EvGetInfo (Uuid sched) cid) s)"
  by (simp add: download_def)

text \<open>
  A list that is not empty and whose requests all fail: the result is \<^verbatim>\<open>nil\<close>, with
  no file written and the size cache as it was.
\<close>

lemma download_exhausted:
  assumes "GetAssetSourceDownloadInfo env (Uuid sched) cid = Inr srcs" "srcs \<noteq> []"
      and "\<forall>src \<in> set srcs. isl (fst (request env (Address src) cid (Tk src)))"
  shows "fst (download env sched out cid sz s) = None
       \<and> dirSize (snd (download env sched out cid sz s)) = dirSize s
       \<and> files (snd (download env sched out cid sz s)) = files s"
  by (simp add: download_nonempty [OF assms(1,2)] download_loop_exhausted [OF assms(3)]
        del: download_loop.simps)

text \<open>
  The source list \<open>pre @ x # post\<close> with \<^verbatim>\<open>request\<close> returning an error for every
  source of \<open>pre\<close> and a body for \<open>x\<close>: the calls are the lookup, the requests for
  \<open>pre\<close> and \<open>x\<close>, the creation of the file and the copy.
\<close>

lemma download_first_accepted:
  assumes info: "GetAssetSourceDownloadInfo env (Uuid sched) cid = Inr (pre @ x # post)"
      and pre: "\<forall>src \<in> set pre. isl (fst (request env (Address src) cid (Tk src)))"
      and x: "fst (request env (Address x) cid (Tk x)) = Inr body"
      and run: "download env sched out cid sz s = (r, s')"
  shows "trace s' = trace s @ [EvGetInfo (Uuid sched) cid]
           @ concat (map (\<lambda>src. snd (request env (Address src) cid (Tk src))) (pre @ [x]))
           @ EvCreate (Join out (cid @ ''.car''))
             # (if Create env (Join out (cid @ ''.car'')) = None
                then [EvCopy (Join out (cid @ ''.car''))] else [])
       \<and> (case Create env (Join out (cid @ ''.car'')) of
            Some e \<Rightarrow> r = Some e
          | None \<Rightarrow>
             (case Copy env (Join out (cid @ ''.car'')) body of
                Some (n, e) \<Rightarrow> r = Some e
              | None \<Rightarrow> r = None \<and> files s' (Join out (cid @ ''.car'')) = Some body))"
proof -
  have "download env sched out cid sz s =
        download_loop env out cid sz (x # post)
          (emits (concat (map (\<lambda>src. snd (request env (Address src) cid (Tk src))) pre))
             (emit (EvGetInfo (Uuid sched) cid) s))"
    by (simp add: download_nonempty [OF info] download_loop_rejected [OF pre]
          del: download_loop.simps)
  then have loop: "(r, s') = download_loop env out cid sz (x # post)
          (emits (concat (map (\<lambda>src. snd (request env (Address src) cid (Tk src))) pre))
             (emit (EvGetInfo (Uuid sched) cid) s))"
    using run by simp
  show ?thesis
  proof (cases "Create env (Join out (cid @ ''.car''))")
    case (Some e)
    show ?thesis
      using loop unfolding download_loop_accepted [OF x]
      by (simp add: Some Let_def emit_def emits_def)
  next
    case None
    show ?thesis
    proof (cases "Copy env (Join out (cid @ ''.car'')) body")
      case (Some ne)
      obtain n e where ne: "ne = (n, e)" by (cases ne)
      show ?thesis
        using loop unfolding download_loop_accepted [OF x]
        by (simp add: None Some ne Let_def emit_def emits_def)
    next
      case nocopy: None
      show ?thesis
        using loop unfolding download_loop_accepted [OF x]
        by (simp add: None nocopy Let_def emit_def emits_def dirSize_add_def)
    qed
  qed
qed

lemma request_env_ok_fails:
  "a \<noteq> ''n3.example'' \<Longrightarrow> a \<in> {''n1.example'', ''n2.example''} \<Longrightarrow>
   request env_ok a ''cid1'' tk =
     (Inl (ExtError ''connection refused''),
      [EvNewRequest (''https://'' @ a @ ''/ipfs/cid1?format=car''),
       EvDo (''https://'' @ a @ ''/ipfs/cid1?format=car'')])"
  by (auto simp: request_def env_ok_def Let_def)

lemma request_env_ok_n3:
  "request env_ok ''n3.example'' ''cid1'' tk =
     (Inr ''carbytes'',
      [EvNewRequest ''https://n3.example/ipfs/cid1?format=car'',
       EvDo ''https://n3.example/ipfs/cid1?format=car''])"
  by (simp add: request_def env_ok_def Let_def)

text \<open>\<^verbatim>\<open>request\<close> asks the address \<open>endpoint_of\<close>, whatever the token.\<close>

lemma request_endpoint:
  "request env url cid tk =
     (case NewRequest env (endpoint_of url cid) of
        Some e \<Rightarrow> (Inl e, [EvNewRequest (endpoint_of url cid)])
      | None \<Rightarrow>
         (case Do env (endpoint_of url cid) of
            Inl e \<Rightarrow> (Inl e, [EvNewRequest (endpoint_of url cid), EvDo (endpoint_of url cid)])
          | Inr resp \<Rightarrow>
              if StatusCode resp \<noteq> 200
              then (Inl (HttpRequestStatus (StatusCode resp) (Status resp)),
                    [EvNewRequest (endpoint_of url cid), EvDo (endpoint_of url cid)])
              else (Inr (Body resp),
                    [EvNewRequest (endpoint_of url cid), EvDo (endpoint_of url cid)])))"
  by (cases "prefix ''http'' url")
     (simp_all add: request_def endpoint_of_def Let_def split: option.splits sum.splits)

text \<open>
  \<^verbatim>\<open>request\<close> returns an error for a refused source and the body for an accepted
  one, and makes the calls of \<open>attempt\<close>.
\<close>

lemma request_refused:
  assumes "refused env cid src"
  shows "isl (fst (request env (Address src) cid (Tk src)))"
    and "snd (request env (Address src) cid (Tk src)) = attempt env cid src"
  using assms unfolding request_endpoint refused_def attempt_def
  by (auto split: option.splits sum.splits)

lemma request_accepted:
  assumes "accepted env cid src body"
  shows "fst (request env (Address src) cid (Tk src)) = Inr body"
    and "snd (request env (Address src) cid (Tk src)) = attempt env cid src"
  using assms unfolding request_endpoint accepted_def attempt_def
  by (auto split: option.splits sum.splits)

lemma refused_or_accepted:
  "refused env cid src \<or> (\<exists>body. accepted env cid src body)"
  by (auto simp: refused_def accepted_def split: option.splits sum.splits)

text \<open>Either every source of a list is refused, or there is a first one that is not.\<close>

lemma candidates_cases:
  "(\<forall>src \<in> set srcs. refused env cid src) \<or>
   (\<exists>pre x post body. srcs = pre @ x # post \<and> (\<forall>src \<in> set pre. refused env cid src) \<and>
       accepted env cid x body)"
proof (cases "\<forall>src \<in> set srcs. refused env cid src")
  case True
  then show ?thesis by simp
next
  case False
  then have "\<exists>src \<in> set srcs. \<not> refused env cid src"
    by simp
  then obtain pre x post where split: "srcs = pre @ x # post" "\<not> refused env cid x"
    "\<forall>src \<in> set pre. \<not> \<not> refused env cid src"
    using split_list_first_prop [of srcs "\<lambda>src. \<not> refused env cid src"] by blast
  then obtain body where "accepted env cid x body"
    using refused_or_accepted [of env cid x] by blast
  with split show ?thesis
    by blast
qed

lemma attempts_of_refused:
  "\<forall>src \<in> set srcs. refused env cid src \<Longrightarrow>
   concat (map (\<lambda>src. snd (request env (Address src) cid (Tk src))) srcs) =
   concat (map (attempt env cid) srcs)"
  by (induction srcs) (simp_all add: request_refused(2))

text \<open>
  Claim C7. Let the scheduler name a list of sources that is not empty. A source is
  refused when its request cannot be built, the connection fails, or the response has a
  status other than 200; it is accepted when the response has status 200.

  If the list is \<open>pre @ x # post\<close> with every source of \<open>pre\<close> refused and \<open>x\<close>
  accepted, the calls made by \<^verbatim>\<open>download\<close> are, in this order: the lookup, the
  request for each source of \<open>pre\<close> and then for \<open>x\<close>, in list order, the creation
  of the file, and the copy if the creation succeeded. No source of \<open>post\<close> is tried.
  The result is the error of \<^verbatim>\<open>os.Create\<close> or of \<^verbatim>\<open>io.Copy\<close> if one of them fails,
  and otherwise \<^verbatim>\<open>nil\<close>, with the file holding the body that \<open>x\<close> sent.

  If every source of the list is refused, every source is tried, in list order, and no
  file is written.

  Every list is of one of these two kinds.
\<close>

theorem download_failover:
  assumes info: "GetAssetSourceDownloadInfo env (Uuid sched) cid = Inr srcs"
      and ne: "srcs \<noteq> []"
      and run: "download env sched out cid sz s = (r, s')"
  shows "(\<forall>pre x post body.
            srcs = pre @ x # post \<and> (\<forall>src \<in> set pre. refused env cid src) \<and>
            accepted env cid x body \<longrightarrow>
            trace s' = trace s @ [EvGetInfo (Uuid sched) cid]
              @ concat (map (attempt env cid) (pre @ [x]))
              @ EvCreate (Join out (cid @ ''.car''))
                # (if Create env (Join out (cid @ ''.car'')) = None
                   then [EvCopy (Join out (cid @ ''.car''))] else [])
          \<and> (case Create env (Join out (cid @ ''.car'')) of
               Some e \<Rightarrow> r = Some e
             | None \<Rightarrow>
                (case Copy env (Join out (cid @ ''.car'')) body of
                   Some (n, e) \<Rightarrow> r = Some e
                 | None \<Rightarrow> r = None \<and> files s' (Join out (cid @ ''.car'')) = Some body)))
       \<and> ((\<forall>src \<in> set srcs. refused env cid src) \<longrightarrow>
            trace s' = trace s @ [EvGetInfo (Uuid sched) cid] @ concat (map (attempt env cid) srcs)
          \<and> files s' = files s)
       \<and> ((\<forall>src \<in> set srcs. refused env cid src) \<or>
          (\<exists>pre x post body.
              srcs = pre @ x # post \<and> (\<forall>src \<in> set pre. refused env cid src) \<and>
              accepted env cid x body))"
proof -
  have first: "trace s' = trace s @ [EvGetInfo (Uuid sched) cid]
              @ concat (map (attempt env cid) (pre @ [x]))
              @ EvCreate (Join out (cid @ ''.car''))
                # (if Create env (Join out (cid @ ''.car'')) = None
                   then [EvCopy (Join out (cid @ ''.car''))] else [])
          \<and> (case Create env (Join out (cid @ ''.car'')) of
               Some e \<Rightarrow> r = Some e
             | None \<Rightarrow>
                (case Copy env (Join out (cid @ ''.car'')) body of
                   Some (n, e) \<Rightarrow> r = Some e
                 | None \<Rightarrow> r = None \<and> files s' (Join out (cid @ ''.car'')) = Some body))"
    if h: "srcs = pre @ x # post \<and> (\<forall>src \<in> set pre. refused env cid src) \<and>
           accepted env cid x body" for pre x post body
  proof -
    have info': "GetAssetSourceDownloadInfo env (Uuid sched) cid = Inr (pre @ x # post)"
      using info h by simp
    have pre: "\<forall>src \<in> set pre. isl (fst (request env (Address src) cid (Tk src)))"
      using h request_refused(1) by blast
    have x: "fst (request env (Address x) cid (Tk x)) = Inr body"
      using h request_accepted(1) by blast
    have calls: "concat (map (\<lambda>src. snd (request env (Address src) cid (Tk src))) (pre @ [x])) =
                 concat (map (attempt env cid) (pre @ [x]))"
      using h request_accepted(2) [of env cid x body] by (simp add: attempts_of_refused)
    show ?thesis
      using download_first_accepted [OF info' pre x run] unfolding calls .
  qed
  have none: "trace s' = trace s @ [EvGetInfo (Uuid sched) cid] @ concat (map (attempt env cid) srcs)
          \<and> files s' = files s"
    if all: "\<forall>src \<in> set srcs. refused env cid src"
  proof -
    have rej: "\<forall>src \<in> set srcs. isl (fst (request env (Address src) cid (Tk src)))"
      using all request_refused(1) by blast
    have "download env sched out cid sz s =
            (None, emits (concat (map (attempt env cid) srcs))
                     (emit (EvGetInfo (Uuid sched) cid) s))"
      by (simp add: download_nonempty [OF info ne] download_loop_exhausted [OF rej]
            attempts_of_refused [OF all] del: download_loop.simps)
    then have "s' = emits (concat (map (attempt env cid) srcs))
                          (emit (EvGetInfo (Uuid sched) cid) s)"
      using run by simp
    then show ?thesis
      by simp
  qed
  show ?thesis
    using first none candidates_cases [of srcs env cid] by blast
qed

text \<open>
  Witness for C7: of three sources the first refuses the connection, the second answers
  with status 503 and the third with status 200; three requests are made in order and
  the file holds the third body. With every source answering 200 and a full disk the
  copy from the first source fails: the fetch returns that error and the second and
  third source are never asked. With no source answering, the three are tried in order.
\<close>

theorem download_failover_witness:
  "fst (download env_mixed sched1 ''/carfile/titan/20240101a'' ''cid1'' (20 * GiB) s_empty) = None
   \<and> trace (snd (download env_mixed sched1 ''/carfile/titan/20240101a'' ''cid1'' (20 * GiB)
                     s_empty)) =
       [EvGetInfo ''http://scheduler1'' ''cid1'',
        EvNewRequest ''https://n1.example/ipfs/cid1?format=car'',
        EvDo ''https://n1.example/ipfs/cid1?format=car'',
        EvNewRequest ''https://n2.example/ipfs/cid1?format=car'',
        EvDo ''https://n2.example/ipfs/cid1?format=car'',
        EvNewRequest ''https://n3.example/ipfs/cid1?format=car'',
        EvDo ''https://n3.example/ipfs/cid1?format=car'',
        EvCreate ''/carfile/titan/20240101a/cid1.car'',
        EvCopy ''/carfile/titan/20240101a/cid1.car'']
   \<and> files (snd (download env_mixed sched1 ''/carfile/titan/20240101a'' ''cid1'' (20 * GiB)
                     s_empty))
         ''/carfile/titan/20240101a/cid1.car'' = Some ''carbytes''
   \<and> Do env_mixed ''https://n1.example/ipfs/cid1?format=car'' =
         Inl (ExtError ''connection refused'')
   \<and> Do env_mixed ''https://n2.example/ipfs/cid1?format=car'' =
         Inr \<lparr>StatusCode = 503, Status = ''503 Service Unavailable'', Body = ''busy''\<rparr>
   \<and> fst (download env_nospace sched1 ''/carfile/titan/20240101a'' ''cid1'' (20 * GiB) s_empty) =
       Some (PathError ''write'' ''/carfile/titan/20240101a/cid1.car'' ENOSPC)
   \<and> trace (snd (download env_nospace sched1 ''/carfile/titan/20240101a'' ''cid1'' (20 * GiB)
                     s_empty)) =
       [EvGetInfo ''http://scheduler1'' ''cid1'',
        EvNewRequest ''https://n1.example/ipfs/cid1?format=car'',
        EvDo ''https://n1.example/ipfs/cid1?format=car'',
        EvCreate ''/carfile/titan/20240101a/cid1.car'',
        EvCopy ''/carfile/titan/20240101a/cid1.car'']
   \<and> trace (snd (download env_down sched1 ''/carfile/titan/20240101a'' ''cid1'' (20 * GiB)
                     s_empty)) =
       [EvGetInfo ''http://scheduler1'' ''cid1'',
        EvNewRequest ''https://n1.example/ipfs/cid1?format=car'',
        EvDo ''https://n1.example/ipfs/cid1?format=car'',
        EvNewRequest ''https://n2.example/ipfs/cid1?format=car'',
        EvDo ''https://n2.example/ipfs/cid1?format=car'',
        EvNewRequest ''https://n3.example/ipfs/cid1?format=car'',
        EvDo ''https://n3.example/ipfs/cid1?format=car'']"
proof -
  let ?n1 = "\<lparr>Address = ''n1.example'', Tk = ''t1''\<rparr>"
  let ?n2 = "\<lparr>Address = ''n2.example'', Tk = ''t2''\<rparr>"
  let ?n3 = "\<lparr>Address = ''n3.example'', Tk = ''t3''\<rparr>"
  let ?mixed = "download env_mixed sched1 ''/carfile/titan/20240101a'' ''cid1'' (20 * GiB) s_empty"
  let ?full = "download env_nospace sched1 ''/carfile/titan/20240101a'' ''cid1'' (20 * GiB) s_empty"
  let ?down = "download env_down sched1 ''/carfile/titan/20240101a'' ''cid1'' (20 * GiB) s_empty"
  have ep: "endpoint_of ''n1.example'' ''cid1'' = ''https://n1.example/ipfs/cid1?format=car''"
    "endpoint_of ''n2.example'' ''cid1'' = ''https://n2.example/ipfs/cid1?format=car''"
    "endpoint_of ''n3.example'' ''cid1'' = ''https://n3.example/ipfs/cid1?format=car''"
    by (simp_all add: endpoint_of_def)
  have ne: "[?n1, ?n2, ?n3] \<noteq> []"
    by simp
  have uuid: "Uuid sched1 = ''http://scheduler1''"
    by (simp add: sched1_def)
  have tr: "trace s_empty = []" "files s_empty = Map.empty"
    by (simp_all add: s_empty_def)
  have path: "Join ''/carfile/titan/20240101a'' (''cid1'' @ ''.car'') =
              ''/carfile/titan/20240101a/cid1.car''"
    by (simp add: Join_def)

  have info_m: "GetAssetSourceDownloadInfo env_mixed (Uuid sched1) ''cid1'' = Inr [?n1, ?n2, ?n3]"
    by (simp add: env_mixed_def env_ok_def)
  have do_m: "Do env_mixed ''https://n1.example/ipfs/cid1?format=car'' =
                Inl (ExtError ''connection refused'')"
    "Do env_mixed ''https://n2.example/ipfs/cid1?format=car'' =
       Inr \<lparr>StatusCode = 503, Status = ''503 Service Unavailable'', Body = ''busy''\<rparr>"
    "Do env_mixed ''https://n3.example/ipfs/cid1?format=car'' =
       Inr \<lparr>StatusCode = 200, Status = ''200 OK'', Body = ''carbytes''\<rparr>"
    by (simp_all add: env_mixed_def env_ok_def)
  have io_m: "NewRequest env_mixed e = None" "Create env_mixed p = None"
    "Copy env_mixed p b = None" for e p b
    by (simp_all add: env_mixed_def env_ok_def)
  have split_m: "[?n1, ?n2, ?n3] = [?n1, ?n2] @ ?n3 # [] \<and>
      (\<forall>src \<in> set [?n1, ?n2]. refused env_mixed ''cid1'' src) \<and>
      accepted env_mixed ''cid1'' ?n3 ''carbytes''"
    by (simp add: refused_def accepted_def ep do_m io_m)
  have att_m: "concat (map (attempt env_mixed ''cid1'') ([?n1, ?n2] @ [?n3])) =
       [EvNewRequest ''https://n1.example/ipfs/cid1?format=car'',
        EvDo ''https://n1.example/ipfs/cid1?format=car'',
        EvNewRequest ''https://n2.example/ipfs/cid1?format=car'',
        EvDo ''https://n2.example/ipfs/cid1?format=car'',
        EvNewRequest ''https://n3.example/ipfs/cid1?format=car'',
        EvDo ''https://n3.example/ipfs/cid1?format=car'']"
    by (simp add: attempt_def ep io_m)
  have run_m: "?mixed = (fst ?mixed, snd ?mixed)"
    by simp
  from download_failover [OF info_m ne run_m] split_m
  have "trace (snd ?mixed) = trace s_empty @ [EvGetInfo (Uuid sched1) ''cid1'']
              @ concat (map (attempt env_mixed ''cid1'') ([?n1, ?n2] @ [?n3]))
              @ EvCreate (Join ''/carfile/titan/20240101a'' (''cid1'' @ ''.car''))
                # (if Create env_mixed (Join ''/carfile/titan/20240101a'' (''cid1'' @ ''.car'')) = None
                   then [EvCopy (Join ''/carfile/titan/20240101a'' (''cid1'' @ ''.car''))] else [])
          \<and> (case Create env_mixed (Join ''/carfile/titan/20240101a'' (''cid1'' @ ''.car'')) of
               Some e \<Rightarrow> fst ?mixed = Some e
             | None \<Rightarrow>
                (case Copy env_mixed (Join ''/carfile/titan/20240101a'' (''cid1'' @ ''.car''))
                        ''carbytes'' of
                   Some (n, e) \<Rightarrow> fst ?mixed = Some e
                 | None \<Rightarrow> fst ?mixed = None \<and>
                     files (snd ?mixed) (Join ''/carfile/titan/20240101a'' (''cid1'' @ ''.car'')) =
                       Some ''carbytes''))"
    by blast
  then have mixed: "fst ?mixed = None \<and>
      trace (snd ?mixed) =
       [EvGetInfo ''http://scheduler1'' ''cid1'',
        EvNewRequest ''https://n1.example/ipfs/cid1?format=car'',
        EvDo ''https://n1.example/ipfs/cid1?format=car'',
        EvNewRequest ''https://n2.example/ipfs/cid1?format=car'',
        EvDo ''https://n2.example/ipfs/cid1?format=car'',
        EvNewRequest ''https://n3.example/ipfs/cid1?format=car'',
        EvDo ''https://n3.example/ipfs/cid1?format=car'',
        EvCreate ''/carfile/titan/20240101a/cid1.car'',
        EvCopy ''/carfile/titan/20240101a/cid1.car''] \<and>
      files (snd ?mixed) ''/carfile/titan/20240101a/cid1.car'' = Some ''carbytes''"
    unfolding att_m path by (simp add: io_m uuid tr)

  have info_f: "GetAssetSourceDownloadInfo env_nospace (Uuid sched1) ''cid1'' = Inr [?n1, ?n2, ?n3]"
    by (simp add: env_nospace_def env_ok_def)
  have io_f: "NewRequest env_nospace e = None" "Create env_nospace p = None"
    "Copy env_nospace p b = Some (3, PathError ''write'' p ENOSPC)"
    "Do env_nospace e = Inr \<lparr>StatusCode = 200, Status = ''200 OK'', Body = ''carbytes''\<rparr>"
    for e p b
    by (simp_all add: env_nospace_def env_ok_def)
  have split_f: "[?n1, ?n2, ?n3] = [] @ ?n1 # [?n2, ?n3] \<and>
      (\<forall>src \<in> set []. refused env_nospace ''cid1'' src) \<and>
      accepted env_nospace ''cid1'' ?n1 ''carbytes''"
    by (simp add: accepted_def io_f)
  have att_f: "concat (map (attempt env_nospace ''cid1'') ([] @ [?n1])) =
       [EvNewRequest ''https://n1.example/ipfs/cid1?format=car'',
        EvDo ''https://n1.example/ipfs/cid1?format=car'']"
    by (simp add: attempt_def ep io_f)
  have run_f: "?full = (fst ?full, snd ?full)"
    by simp
  from download_failover [OF info_f ne run_f] split_f
  have "trace (snd ?full) = trace s_empty @ [EvGetInfo (Uuid sched1) ''cid1'']
              @ concat (map (attempt env_nospace ''cid1'') ([] @ [?n1]))
              @ EvCreate (Join ''/carfile/titan/20240101a'' (''cid1'' @ ''.car''))
                # (if Create env_nospace (Join ''/carfile/titan/20240101a'' (''cid1'' @ ''.car'')) = None
                   then [EvCopy (Join ''/carfile/titan/20240101a'' (''cid1'' @ ''.car''))] else [])
          \<and> (case Create env_nospace (Join ''/carfile/titan/20240101a'' (''cid1'' @ ''.car'')) of
               Some e \<Rightarrow> fst ?full = Some e
             | None \<Rightarrow>
                (case Copy env_nospace (Join ''/carfile/titan/20240101a'' (''cid1'' @ ''.car''))
                        ''carbytes'' of
                   Some (n, e) \<Rightarrow> fst ?full = Some e
                 | None \<Rightarrow> fst ?full = None \<and>
                     files (snd ?full) (Join ''/carfile/titan/20240101a'' (''cid1'' @ ''.car'')) =
                       Some ''carbytes''))"
    by blast
  then have full: "fst ?full = Some (PathError ''write'' ''/carfile/titan/20240101a/cid1.car'' ENOSPC)
      \<and> trace (snd ?full) =
       [EvGetInfo ''http://scheduler1'' ''cid1'',
        EvNewRequest ''https://n1.example/ipfs/cid1?format=car'',
        EvDo ''https://n1.example/ipfs/cid1?format=car'',
        EvCreate ''/carfile/titan/20240101a/cid1.car'',
        EvCopy ''/carfile/titan/20240101a/cid1.car'']"
    unfolding att_f path by (simp add: io_f uuid tr)

  have info_d: "GetAssetSourceDownloadInfo env_down (Uuid sched1) ''cid1'' = Inr [?n1, ?n2, ?n3]"
    by (simp add: env_down_def env_ok_def)
  have io_d: "NewRequest env_down e = None"
    "Do env_down e = Inl (ExtError ''connection refused'')" for e
    by (simp_all add: env_down_def env_ok_def)
  have all_d: "\<forall>src \<in> set [?n1, ?n2, ?n3]. refused env_down ''cid1'' src"
    by (simp add: refused_def io_d)
  have att_d: "concat (map (attempt env_down ''cid1'') [?n1, ?n2, ?n3]) =
       [EvNewRequest ''https://n1.example/ipfs/cid1?format=car'',
        EvDo ''https://n1.example/ipfs/cid1?format=car'',
        EvNewRequest ''https://n2.example/ipfs/cid1?format=car'',
        EvDo ''https://n2.example/ipfs/cid1?format=car'',
        EvNewRequest ''https://n3.example/ipfs/cid1?format=car'',
        EvDo ''https://n3.example/ipfs/cid1?format=car'']"
    by (simp add: attempt_def ep io_d)
  have run_d: "?down = (fst ?down, snd ?down)"
    by simp
  from download_failover [OF info_d ne run_d] all_d
  have "trace (snd ?down) = trace s_empty @ [EvGetInfo (Uuid sched1) ''cid1'']
          @ concat (map (attempt env_down ''cid1'') [?n1, ?n2, ?n3])"
    by blast
  then have down: "trace (snd ?down) =
       [EvGetInfo ''http://scheduler1'' ''cid1'',
        EvNewRequest ''https://n1.example/ipfs/cid1?format=car'',
        EvDo ''https://n1.example/ipfs/cid1?format=car'',
        EvNewRequest ''https://n2.example/ipfs/cid1?format=car'',
        EvDo ''https://n2.example/ipfs/cid1?format=car'',
        EvNewRequest ''https://n3.example/ipfs/cid1?format=car'',
        EvDo ''https://n3.example/ipfs/cid1?format=car'']"
    unfolding att_d by (simp add: uuid tr)
  show ?thesis
    using mixed full down do_m(1,2) by simp
qed

lemma download_completes:
  assumes info: "GetAssetSourceDownloadInfo env (Uuid sched) cid = Inr (pre @ x # post)"
      and pre: "\<forall>src \<in> set pre. isl (fst (request env (Address src) cid (Tk src)))"
      and x: "fst (request env (Address x) cid (Tk x)) = Inr body"
      and ok: "Create env (Join out (cid @ ''.car'')) = None"
              "Copy env (Join out (cid @ ''.car'')) body = None"
  shows "\<exists>s'. download env sched out cid sz s = (None, s') \<and>
           dirSize s' = (dirSize s)(out \<mapsto> (case dirSize s out of None \<Rightarrow> 0 | Some v \<Rightarrow> v) + sz)"
proof -
  have "download env sched out cid sz s =
        download_loop env out cid sz (x # post)
          (emits (concat (map (\<lambda>src. snd (request env (Address src) cid (Tk src))) pre))
             (emit (EvGetInfo (Uuid sched) cid) s))"
    by (simp add: download_nonempty [OF info] download_loop_rejected [OF pre]
          del: download_loop.simps)
  then show ?thesis
    unfolding download_loop_accepted [OF x]
    by (simp add: ok Let_def dirSize_add_def emit_def emits_def)
qed

text \<open>
  Claim C5. Let \<^verbatim>\<open>getOutPath\<close> select \<open>out\<close>, and let the download complete (some
  source is accepted after the ones before it failed, and the file is created and
  copied). Then \<^verbatim>\<open>create\<close> succeeds with the job's path set to \<open>out\<close>, and the
  cached size of \<open>out\<close> is its earlier value (0 if it had none) plus the job's
  declared \<open>TotalSize\<close>, whatever the length of the body. The selection looks at the
  cached size only: if the first directory of the bucket exists with a cached size
  below the threshold it is selected, whatever the size of the job, and its cached
  size becomes the sum.
\<close>

theorem create_adds_declared_size:
  assumes alloc: "getOutPath env (Format env (EndTime job)) s = ((out, None), s1)"
      and sched: "find (\<lambda>sd. AreaId sd = areaId d) (schedulers d) = Some sched"
      and info: "GetAssetSourceDownloadInfo env (Uuid sched) (Cid job) = Inr (pre @ x # post)"
      and pre: "\<forall>src \<in> set pre. isl (fst (request env (Address src) (Cid job) (Tk src)))"
      and x: "fst (request env (Address x) (Cid job) (Tk x)) = Inr body"
      and ok: "Create env (Join out (Cid job @ ''.car'')) = None"
              "Copy env (Join out (Cid job @ ''.car'')) body = None"
      and run: "create env d job s = (r, job', s')"
  shows "r = (Some (job\<lparr>Path := out\<rparr>), None) \<and> job' = job\<lparr>Path := out\<rparr>
       \<and> dirSize s' =
           (dirSize s1)(out \<mapsto> (case dirSize s1 out of None \<Rightarrow> 0 | Some v \<Rightarrow> v) + TotalSize job)
       \<and> (\<forall>S. Join BackupOutPath (Format env (EndTime job) @ ''a'') \<in> dirs s \<and>
                dirSize s (Join BackupOutPath (Format env (EndTime job) @ ''a'')) = Some S \<and>
                word_sless S maxSingleDirSize \<longrightarrow>
                out = Join BackupOutPath (Format env (EndTime job) @ ''a'') \<and>
                dirSize s' out = Some (S + TotalSize job))"
proof -
  obtain s2 where dl: "download env sched out (Cid job) (TotalSize job) s1 = (None, s2)"
    and ds: "dirSize s2 =
      (dirSize s1)(out \<mapsto> (case dirSize s1 out of None \<Rightarrow> 0 | Some v \<Rightarrow> v) + TotalSize job)"
    using download_completes [OF info pre x ok] by blast
  have c: "create env d job s = ((Some (job\<lparr>Path := out\<rparr>), None), job\<lparr>Path := out\<rparr>, s2)"
    by (simp add: create_def alloc sched dl Let_def)
  have main: "r = (Some (job\<lparr>Path := out\<rparr>), None)" "job' = job\<lparr>Path := out\<rparr>" "s' = s2"
    using run [unfolded c, symmetric] by simp_all
  have adm: "out = Join BackupOutPath (Format env (EndTime job) @ ''a'') \<and>
             dirSize s' out = Some (S + TotalSize job)"
    if a: "Join BackupOutPath (Format env (EndTime job) @ ''a'') \<in> dirs s"
          "dirSize s (Join BackupOutPath (Format env (EndTime job) @ ''a'')) = Some S"
          "word_sless S maxSingleDirSize" for S
  proof -
    have g: "getOutPath env (Format env (EndTime job)) s =
            ((Join BackupOutPath (Format env (EndTime job) @ ''a''), None),
             emit (EvStat (Join BackupOutPath (Format env (EndTime job) @ ''a''))) s)"
      by (rule getOutPath_first_below [OF a])
    have "out = Join BackupOutPath (Format env (EndTime job) @ ''a'')"
      and "s1 = emit (EvStat (Join BackupOutPath (Format env (EndTime job) @ ''a''))) s"
      using alloc [symmetric, unfolded g] by simp_all
    then show ?thesis
      using a(2) ds main(3) by simp
  qed
  show ?thesis
    using main ds adm by blast
qed

text \<open>
  Witness for C5: a directory cached at 17 GiB, below the threshold of 18 GiB, takes a
  job of 20 GiB and is then cached at 37 GiB, over the threshold.
\<close>

theorem create_adds_declared_size_witness:
  "fst (create env_ok d_main job1 (s_cached (17 * GiB))) =
     (Some (job1\<lparr>Path := ''/carfile/titan/20240101a''\<rparr>), None)
   \<and> word_sless (17 * GiB) maxSingleDirSize
   \<and> dirSize (snd (snd (create env_ok d_main job1 (s_cached (17 * GiB)))))
         ''/carfile/titan/20240101a'' = Some (37 * GiB)
   \<and> \<not> word_sless (37 * GiB) maxSingleDirSize"
proof -
  let ?n1 = "\<lparr>Address = ''n1.example'', Tk = ''t1''\<rparr>"
  let ?n2 = "\<lparr>Address = ''n2.example'', Tk = ''t2''\<rparr>"
  let ?n3 = "\<lparr>Address = ''n3.example'', Tk = ''t3''\<rparr>"
  let ?run = "create env_ok d_main job1 (s_cached (17 * GiB))"
  let ?a = "''/carfile/titan/20240101a''"
  have fmt: "Format env_ok t = ''20240101''" for t
    by (simp add: env_ok_def)
  have below: "word_sless (17 * GiB) maxSingleDirSize"
    by (simp add: maxSingleDirSize_def GiB_def)
  have above: "\<not> word_sless (37 * GiB) maxSingleDirSize"
    by (simp add: maxSingleDirSize_def GiB_def)
  have a: "Join BackupOutPath ''20240101a'' = ?a"
    by (simp add: Join_def BackupOutPath_def)
  have cached: "?a \<in> dirs (s_cached (17 * GiB))" "dirSize (s_cached (17 * GiB)) ?a = Some (17 * GiB)"
    by (simp_all add: s_cached_def)
  have alloc: "getOutPath env_ok (Format env_ok (EndTime job1)) (s_cached (17 * GiB)) =
                 ((?a, None), emit (EvStat ?a) (s_cached (17 * GiB)))"
    using getOutPath_first_below [of "''20240101''" "s_cached (17 * GiB)" "17 * GiB" env_ok]
      below cached
    by (simp add: fmt a)
  have sched: "find (\<lambda>sd. AreaId sd = areaId d_main) (schedulers d_main) = Some sched1"
    by (simp add: d_main_def sched1_def)
  have info: "GetAssetSourceDownloadInfo env_ok (Uuid sched1) (Cid job1) = Inr ([?n1, ?n2] @ ?n3 # [])"
    by (simp add: env_ok_def)
  have cid: "Cid job1 = ''cid1''"
    by (simp add: job1_def)
  have pre: "\<forall>src \<in> set [?n1, ?n2]. isl (fst (request env_ok (Address src) (Cid job1) (Tk src)))"
    by (simp add: cid request_env_ok_fails)
  have x: "fst (request env_ok (Address ?n3) (Cid job1) (Tk ?n3)) = Inr ''carbytes''"
    by (simp add: cid request_env_ok_n3)
  have io: "Create env_ok p = None" "Copy env_ok p b = None" for p b
    by (simp_all add: env_ok_def)
  have run: "?run = (fst ?run, fst (snd ?run), snd (snd ?run))"
    by simp
  have sum: "17 * GiB + TotalSize job1 = 37 * GiB"
    by (simp add: job1_def GiB_def)
  from create_adds_declared_size [OF alloc sched info pre x io run]
  have "fst ?run = (Some (job1\<lparr>Path := ?a\<rparr>), None)"
    and "dirSize (snd (snd ?run)) ?a = Some (17 * GiB + TotalSize job1)"
    using below cached by (simp_all add: fmt a)
  then show ?thesis
    using below above by (simp add: sum)
qed

lemma request_env_down:
  "request env_down ''n1.example'' ''cid1'' tk =
     (Inl (ExtError ''connection refused''),
      [EvNewRequest ''https://n1.example/ipfs/cid1?format=car'',
       EvDo ''https://n1.example/ipfs/cid1?format=car''])"
  "request env_down ''n2.example'' ''cid1'' tk =
     (Inl (ExtError ''connection refused''),
      [EvNewRequest ''https://n2.example/ipfs/cid1?format=car'',
       EvDo ''https://n2.example/ipfs/cid1?format=car''])"
  "request env_down ''n3.example'' ''cid1'' tk =
     (Inl (ExtError ''connection refused''),
      [EvNewRequest ''https://n3.example/ipfs/cid1?format=car'',
       EvDo ''https://n3.example/ipfs/cid1?format=car''])"
  by (simp_all add: request_def env_down_def env_ok_def Let_def)

lemma getOutPath_fresh:
  "getOutPath env_down ''20240101'' s_empty =
     ((''/carfile/titan/20240101a'', None),
      s_empty\<lparr>dirs := {''/carfile/titan/20240101a''},
               trace := [EvStat ''/carfile/titan/20240101a'', EvMkdir ''/carfile/titan/20240101a'']\<rparr>)"
  unfolding getOutPath_def
  by (subst loop_step_missing)
     (simp_all add: candidate_def Join_def BackupOutPath_def char_of_def bit_iff_odd s_empty_def
        env_down_def env_ok_def emit_def)

text \<open>
  Claim C1 (an empty source list is the "not found" error; a list tried to its end
  without a completed copy is an error naming the content id, never success). The first
  half holds (lemma \<open>download_empty_list\<close>). The second does not: the statement after
  the loop of \<^verbatim>\<open>download\<close> is \<^verbatim>\<open>return nil\<close>. With three sources that all refuse
  the connection, \<^verbatim>\<open>download\<close> returns \<^verbatim>\<open>nil\<close>, and \<^verbatim>\<open>create\<close> returns the job
  with its path set and no error, although no file was written.
\<close>

theorem download_all_candidates_fail:
  "fst (download env_down sched1 ''/carfile/titan/20240101a'' ''cid1'' (20 * GiB) s_empty) = None
   \<and> create env_down d_main job1 s_empty =
       ((Some (job1\<lparr>Path := ''/carfile/titan/20240101a''\<rparr>), None),
        job1\<lparr>Path := ''/carfile/titan/20240101a''\<rparr>,
        s_empty\<lparr>dirs := {''/carfile/titan/20240101a''},
          trace := [EvStat ''/carfile/titan/20240101a'', EvMkdir ''/carfile/titan/20240101a'',
            EvGetInfo ''http://scheduler1'' ''cid1'',
            EvNewRequest ''https://n1.example/ipfs/cid1?format=car'',
            EvDo ''https://n1.example/ipfs/cid1?format=car'',
            EvNewRequest ''https://n2.example/ipfs/cid1?format=car'',
            EvDo ''https://n2.example/ipfs/cid1?format=car'',
            EvNewRequest ''https://n3.example/ipfs/cid1?format=car'',
            EvDo ''https://n3.example/ipfs/cid1?format=car'']\<rparr>)"
proof -
  have info: "GetAssetSourceDownloadInfo env_down u c =
        Inr [\<lparr>Address = ''n1.example'', Tk = ''t1''\<rparr>,
             \<lparr>Address = ''n2.example'', Tk = ''t2''\<rparr>,
             \<lparr>Address = ''n3.example'', Tk = ''t3''\<rparr>]" for u c
    by (simp add: env_down_def env_ok_def)
  have fmt: "Format env_down t = ''20240101''" for t
    by (simp add: env_down_def env_ok_def)
  have dl: "download env_down sched1 out ''cid1'' sz s =
     (None, emits [EvGetInfo ''http://scheduler1'' ''cid1'',
            EvNewRequest ''https://n1.example/ipfs/cid1?format=car'',
            EvDo ''https://n1.example/ipfs/cid1?format=car'',
            EvNewRequest ''https://n2.example/ipfs/cid1?format=car'',
            EvDo ''https://n2.example/ipfs/cid1?format=car'',
            EvNewRequest ''https://n3.example/ipfs/cid1?format=car'',
            EvDo ''https://n3.example/ipfs/cid1?format=car''] s)" for out sz s
    by (simp add: download_def info request_env_down sched1_def emit_def emits_def)
  have sched: "find (\<lambda>sd. AreaId sd = areaId d_main) (schedulers d_main) = Some sched1"
    by (simp add: d_main_def sched1_def)
  have job: "Cid job1 = ''cid1''" "EndTime job1 = 0"
    by (simp_all add: job1_def)
  have "create env_down d_main job1 s_empty =
       ((Some (job1\<lparr>Path := ''/carfile/titan/20240101a''\<rparr>), None),
        job1\<lparr>Path := ''/carfile/titan/20240101a''\<rparr>,
        emits [EvGetInfo ''http://scheduler1'' ''cid1'',
            EvNewRequest ''https://n1.example/ipfs/cid1?format=car'',
            EvDo ''https://n1.example/ipfs/cid1?format=car'',
            EvNewRequest ''https://n2.example/ipfs/cid1?format=car'',
            EvDo ''https://n2.example/ipfs/cid1?format=car'',
            EvNewRequest ''https://n3.example/ipfs/cid1?format=car'',
            EvDo ''https://n3.example/ipfs/cid1?format=car'']
          (s_empty\<lparr>dirs := {''/carfile/titan/20240101a''},
               trace := [EvStat ''/carfile/titan/20240101a'',
                         EvMkdir ''/carfile/titan/20240101a'']\<rparr>))"
    by (simp add: create_def fmt job getOutPath_fresh sched dl Let_def)
  then show ?thesis
    by (simp add: dl emits_def s_empty_def)
qed

section \<open>Processing one job\<close>

lemma getOutPath_denied:
  "''/carfile/titan/20240101a'' \<notin> dirs s \<Longrightarrow>
   getOutPath env_denied ''20240101'' s =
     (([], Some (PathError ''mkdir'' ''/carfile/titan/20240101a'' EACCES)),
      emits [EvStat ''/carfile/titan/20240101a'', EvMkdir ''/carfile/titan/20240101a''] s)"
  unfolding getOutPath_def
  by (subst loop_step_missing)
     (simp_all add: candidate_def Join_def BackupOutPath_def char_of_def bit_iff_odd
        createOrGetSize_missing env_denied_def env_ok_def emit_def emits_def)

text \<open>
  Claim C4 (a job whose directory allocation or download fails gets the error event
  code and is still reported). For a failed allocation the code does not set the code:
  \<^verbatim>\<open>create\<close> returns \<^verbatim>\<open>nil, err\<close> before the line \<^verbatim>\<open>job.Event = ErrorEventID\<close>,
  which only the download branch reaches. With a storage root where \<^verbatim>\<open>os.Mkdir\<close>
  is denied, the job is reported with its event unchanged.
\<close>

theorem jobProcess_allocation_failure:
  "jobProcess env_denied d_main job1 s_empty =
     (job1,
      s_empty\<lparr>trace := [EvStat ''/carfile/titan/20240101a'', EvMkdir ''/carfile/titan/20240101a'',
                          EvPushResult ''tok'' [job1], EvSleep]\<rparr>)
   \<and> Event job1 \<noteq> ErrorEventID"
proof -
  have fmt: "Format env_denied t = ''20240101''" for t
    by (simp add: env_denied_def env_ok_def)
  have post: "DoPost env_denied t js = Inr \<lparr>StatusCode = 200, Status = ''200 OK'', Body = []\<rparr>" for t js
    by (simp add: env_denied_def env_ok_def)
  have tok: "token d_main = ''tok''"
    by (simp add: d_main_def)
  have job: "Cid job1 = ''cid1''" "EndTime job1 = 0"
    by (simp_all add: job1_def)
  have alloc: "getOutPath env_denied ''20240101'' (s_empty\<lparr>downloading := {''cid1''}\<rparr>) =
      (([], Some (PathError ''mkdir'' ''/carfile/titan/20240101a'' EACCES)),
       emits [EvStat ''/carfile/titan/20240101a'', EvMkdir ''/carfile/titan/20240101a'']
         (s_empty\<lparr>downloading := {''cid1''}\<rparr>))"
    by (rule getOutPath_denied) (simp add: s_empty_def)
  have cr: "create env_denied d_main job1 (s_empty\<lparr>downloading := {''cid1''}\<rparr>) =
      ((None, Some (PathError ''mkdir'' ''/carfile/titan/20240101a'' EACCES)), job1,
       emits [EvStat ''/carfile/titan/20240101a'', EvMkdir ''/carfile/titan/20240101a'']
         (s_empty\<lparr>downloading := {''cid1''}\<rparr>))"
    by (simp add: create_def fmt alloc)
  have enter: "jobProcess_enter job1 s_empty = (False, s_empty\<lparr>downloading := {''cid1''}\<rparr>)"
    by (simp add: jobProcess_enter_def s_empty_def job1_def)
  have "jobProcess env_denied d_main job1 s_empty =
     (job1,
      s_empty\<lparr>trace := [EvStat ''/carfile/titan/20240101a'', EvMkdir ''/carfile/titan/20240101a'',
                          EvPushResult ''tok'' [job1], EvSleep]\<rparr>)"
    by (simp add: jobProcess_def enter cr jobProcess_report_def pushResult_def post
          jobProcess_sleep_def jobProcess_leave_def emit_def emits_def Let_def tok job)
       (simp add: s_empty_def)
  moreover have "Event job1 \<noteq> ErrorEventID"
    by (simp add: job1_def ErrorEventID_def)
  ultimately show ?thesis by simp
qed

text \<open>
  Claim C2. If the job's content id is in \<open>downloading\<close> when \<^verbatim>\<open>jobProcess\<close>
  starts, the function returns with the job and the whole state unchanged: no
  external call is made (no stat, no directory, no request, no report), and the entry
  stays in the set. If it is not, the locked section at the start inserts it (test and
  insertion are the one step \<open>jobProcess_enter\<close>), and \<^verbatim>\<open>create\<close>, the report, the
  sleep and the removal run on the state that holds the entry.
\<close>

theorem jobProcess_dedup:
  "(Cid a \<in> downloading s \<longrightarrow> jobProcess env d a s = (a, s))
   \<and> (Cid a \<notin> downloading s \<longrightarrow>
        jobProcess_enter a s = (False, s\<lparr>downloading := insert (Cid a) (downloading s)\<rparr>)
      \<and> jobProcess env d a s =
          (let (r, a', s2) = create env d a (s\<lparr>downloading := insert (Cid a) (downloading s)\<rparr>)
           in (a', jobProcess_leave a'
                     (jobProcess_sleep (jobProcess_report env d a' s2)))))"
  by (simp add: jobProcess_def jobProcess_enter_def Let_def)

text \<open>Witness for C2: a job whose content id is being downloaded, and one whose is not.\<close>

theorem jobProcess_dedup_witness:
  "jobProcess env_ok d_main job1 s_downloading = (job1, s_downloading)
   \<and> jobProcess_enter job1 s_empty = (False, s_empty\<lparr>downloading := {''cid1''}\<rparr>)
   \<and> jobProcess env_ok d_main job1 s_empty =
       (let (r, a', s2) = create env_ok d_main job1 (s_empty\<lparr>downloading := {''cid1''}\<rparr>)
        in (a', jobProcess_leave a' (jobProcess_sleep (jobProcess_report env_ok d_main a' s2))))"
proof -
  have present: "Cid job1 \<in> downloading s_downloading"
    by (simp add: s_downloading_def job1_def)
  have absent: "Cid job1 \<notin> downloading s_empty"
    by (simp add: s_empty_def)
  have ins: "insert (Cid job1) (downloading s_empty) = {''cid1''}"
    by (simp add: s_empty_def job1_def)
  show ?thesis
    using jobProcess_dedup [of job1 s_downloading env_ok d_main]
          jobProcess_dedup [of job1 s_empty env_ok d_main]
          present absent
    by (simp add: ins)
qed

section \<open>The worker pool\<close>

lemma slot_ids_cong:
  "downWorkerQueue sys' = downWorkerQueue sys \<Longrightarrow> routines sys' = routines sys \<Longrightarrow>
   slot_ids sys' = slot_ids sys"
  by (simp add: slot_ids_def)

text \<open>What the calls of \<^verbatim>\<open>create\<close> leave as it is, and what they add to the trace.\<close>

lemma createOrGetSize_frame:
  assumes "createOrGetSize env dir s = (r, s')"
  shows "downloading s' = downloading s \<and> (\<exists>es. trace s' = trace s @ EvStat dir # es)"
  using assms
  by (auto simp: createOrGetSize_def Exist_def os_Mkdir_def getDirSize_def emit_def Let_def
        split: if_splits option.splits prod.splits)

lemma getOutPath_loop_frame:
  assumes "getOutPath_loop env dir c out s = (r, s')"
  shows "downloading s' = downloading s \<and>
         (\<exists>es. trace s' = trace s @ es \<and> (c < 122 \<longrightarrow> (\<exists>es'. es = EvStat (candidate dir c) # es')))"
  using assms
proof (induction "122 - c" arbitrary: c out s)
  case 0
  then have "\<not> c < 122" by simp
  with "0.prems" show ?case
    by (subst (asm) getOutPath_loop.simps) simp
next
  case (Suc n)
  then have c: "c < 122" by simp
  have n: "n = 122 - (c + 1)" using Suc.hyps(2) by simp
  obtain sz err s1 where cg: "createOrGetSize env (candidate dir c) s = ((sz, err), s1)"
    by (metis surj_pair)
  from createOrGetSize_frame [OF cg] obtain es1 where
    f1: "downloading s1 = downloading s" "trace s1 = trace s @ EvStat (candidate dir c) # es1"
    by blast
  have unfold: "getOutPath_loop env dir c out s =
      (case err of
         Some e \<Rightarrow> (([], Some e), s1)
       | None \<Rightarrow>
           if word_sless sz maxSingleDirSize then ((candidate dir c, None), s1)
           else getOutPath_loop env dir (c + 1) (candidate dir c) s1)"
    using c cg by (subst getOutPath_loop.simps) (simp add: Let_def candidate_def [symmetric])
  show ?case
  proof (cases "err = None \<and> \<not> word_sless sz maxSingleDirSize")
    case True
    then have rec: "getOutPath_loop env dir (c + 1) (candidate dir c) s1 = (r, s')"
      using Suc.prems unfold by simp
    from Suc.hyps(1) [OF n rec] obtain es2 where
      f2: "downloading s' = downloading s1" "trace s' = trace s1 @ es2"
      by blast
    show ?thesis
      using f1 f2 c by simp
  next
    case False
    then have "s' = s1"
      using Suc.prems unfold by (auto split: option.splits if_splits)
    then show ?thesis
      using f1 c by simp
  qed
qed

lemma download_loop_frame:
  assumes "download_loop env out cid sz srcs s = (r, s')"
  shows "downloading s' = downloading s \<and> (\<exists>es. trace s' = trace s @ es)"
  using assms
proof (induction srcs arbitrary: s)
  case Nil
  then show ?case by simp
next
  case (Cons x srcs)
  obtain res es where rq: "request env (Address x) cid (Tk x) = (res, es)"
    by (metis surj_pair)
  show ?case
  proof (cases res)
    case (Inl e)
    then have "download_loop env out cid sz srcs (emits es s) = (r, s')"
      using Cons.prems rq by simp
    from Cons.IH [OF this] show ?thesis
      by auto
  next
    case (Inr body)
    then show ?thesis
      using Cons.prems rq
      by (auto simp: os_Create_def io_Copy_def dirSize_add_def emit_def emits_def Let_def
            split: option.splits prod.splits)
  qed
qed

lemma download_frame:
  assumes "download env sched out cid sz s = (r, s')"
  shows "downloading s' = downloading s \<and> (\<exists>es. trace s' = trace s @ es)"
proof (cases "GetAssetSourceDownloadInfo env (Uuid sched) cid")
  case (Inl e)
  then show ?thesis
    using assms by (auto simp: download_def Let_def)
next
  case (Inr srcs)
  show ?thesis
  proof (cases "srcs = []")
    case True
    then show ?thesis
      using assms Inr by (auto simp: download_def Let_def)
  next
    case False
    then have "download_loop env out cid sz srcs (emit (EvGetInfo (Uuid sched) cid) s) = (r, s')"
      using assms Inr by (simp add: download_def Let_def del: download_loop.simps)
    from download_loop_frame [OF this] show ?thesis
      by auto
  qed
qed

lemma create_frame:
  assumes "create env d a s = (res, a', s')"
  shows "downloading s' = downloading s \<and> Cid a' = Cid a \<and> EndTime a' = EndTime a \<and>
         (\<exists>es. trace s' = trace s @ first_call env a # es)"
proof -
  obtain outPath err s1 where g: "getOutPath env (Format env (EndTime a)) s = ((outPath, err), s1)"
    by (metis surj_pair)
  from getOutPath_loop_frame [OF g [unfolded getOutPath_def]] obtain es1 where
    f1: "downloading s1 = downloading s"
        "trace s1 = trace s @ EvStat (candidate (Format env (EndTime a)) 97) # es1"
    by auto
  have fc: "EvStat (candidate (Format env (EndTime a)) 97) = first_call env a"
    by (simp add: first_call_def candidate_a)
  show ?thesis
  proof (cases "err = None \<and> find (\<lambda>sd. AreaId sd = areaId d) (schedulers d) \<noteq> None")
    case False
    then have "s' = s1 \<and> a' = a"
      using assms g by (auto simp: create_def Let_def split: option.splits)
    then show ?thesis
      using f1 fc by simp
  next
    case True
    then obtain sched where sc: "find (\<lambda>sd. AreaId sd = areaId d) (schedulers d) = Some sched"
      by auto
    obtain err' s2 where dl: "download env sched outPath (Cid a) (TotalSize a) s1 = (err', s2)"
      by (metis surj_pair)
    from download_frame [OF dl] obtain es2 where
      f2: "downloading s2 = downloading s1" "trace s2 = trace s1 @ es2"
      by blast
    have "s' = s2 \<and> (a' = a\<lparr>Event := ErrorEventID\<rparr> \<or> a' = a\<lparr>Path := outPath\<rparr>)"
      using assms g True sc dl by (auto simp: create_def Let_def split: option.splits)
    then show ?thesis
      using f1 f2 fc by auto
  qed
qed

lemma since_append [simp]: "trace s' = trace s @ es \<Longrightarrow> since s s' = es"
  by (simp add: since_def)

lemma since_same [simp]: "trace s' = trace s \<Longrightarrow> since s s' = []"
  by (simp add: since_def)

text \<open>The statements of a goroutine, one by one.\<close>

lemma advance_Entering:
  assumes "stage r = Entering"
  shows "advance env d r s =
     (if Cid (item r) \<in> downloading s
      then (r\<lparr>stage := Returning, existing := True, calls := calls r\<rparr>, s)
      else (r\<lparr>stage := Creating, existing := False, calls := calls r\<rparr>,
            s\<lparr>downloading := insert (Cid (item r)) (downloading s)\<rparr>))"
  using assms by (simp add: advance_def jobProcess_enter_def)

lemma advance_Creating:
  assumes "stage r = Creating"
  shows "\<exists>res a' s' es. create env d (item r) s = (res, a', s') \<and>
           advance env d r s =
             (r\<lparr>item := a', stage := Reporting, calls := calls r @ first_call env (item r) # es\<rparr>, s')
         \<and> trace s' = trace s @ first_call env (item r) # es
         \<and> downloading s' = downloading s \<and> Cid a' = Cid (item r) \<and> EndTime a' = EndTime (item r)"
proof -
  obtain res a' s' where c: "create env d (item r) s = (res, a', s')"
    by (metis surj_pair)
  from create_frame [OF c] obtain es where
    f: "downloading s' = downloading s" "Cid a' = Cid (item r)" "EndTime a' = EndTime (item r)"
       "trace s' = trace s @ first_call env (item r) # es"
    by blast
  have "advance env d r s =
     (r\<lparr>item := a', stage := Reporting, calls := calls r @ first_call env (item r) # es\<rparr>, s')"
    using assms c f(4) by (simp add: advance_def)
  then show ?thesis
    using c f by blast
qed

lemma advance_Reporting:
  assumes "stage r = Reporting"
  shows "advance env d r s =
     (r\<lparr>stage := Sleeping, calls := calls r @ [EvPushResult (token d) [item r]]\<rparr>,
      emit (EvPushResult (token d) [item r]) s)"
proof -
  have "jobProcess_report env d (item r) s = emit (EvPushResult (token d) [item r]) s"
    by (simp add: jobProcess_report_def pushResult_def Let_def split: sum.splits)
  then show ?thesis
    using assms by (simp add: advance_def Let_def)
qed

lemma advance_Sleeping:
  assumes "stage r = Sleeping"
  shows "advance env d r s = (r\<lparr>stage := Leaving, calls := calls r @ [EvSleep]\<rparr>, emit EvSleep s)"
  using assms by (simp add: advance_def jobProcess_sleep_def Let_def)

lemma advance_Leaving:
  assumes "stage r = Leaving"
  shows "advance env d r s =
     (r\<lparr>stage := Returning, calls := calls r\<rparr>,
      s\<lparr>downloading := downloading s - {Cid (item r)}\<rparr>)"
  using assms by (simp add: advance_def jobProcess_leave_def Let_def)

lemma suffix_snoc_self: "suffix [a] (xs @ [a])"
  by (simp add: suffix_def)

lemma suffix_snoc_next: "suffix [a] xs \<Longrightarrow> suffix [a, b] (xs @ [b])"
  by (auto simp: suffix_def)

text \<open>What one statement does to the goroutine and to the shared state.\<close>

lemma advance_effect:
  assumes "stage r \<noteq> Returning" "advance env d r s = (r', s')"
  shows "slot r' = slot r \<and> Cid (item r') = Cid (item r)
       \<and> (\<exists>es. trace s' = trace s @ es \<and> calls r' = calls r @ es)
       \<and> (life env d r \<longrightarrow> life env d r')
       \<and> (stage r = Entering \<longrightarrow>
            (if Cid (item r) \<in> downloading s
             then \<not> owning r' \<and> downloading s' = downloading s
             else owning r' \<and> downloading s' = insert (Cid (item r)) (downloading s)))
       \<and> (stage r = Creating \<or> stage r = Reporting \<or> stage r = Sleeping \<longrightarrow>
            owning r' \<and> downloading s' = downloading s)
       \<and> (stage r = Leaving \<longrightarrow>
            \<not> owning r' \<and> downloading s' = downloading s - {Cid (item r)})"
proof (cases "stage r")
  case Entering
  then show ?thesis
    using assms(2) by (auto simp: advance_Entering life_def owning_def split: if_splits)
next
  case Creating
  from advance_Creating [OF Creating, of env d s] assms(2) obtain res a' es where
    c: "r' = r\<lparr>item := a', stage := Reporting, calls := calls r @ first_call env (item r) # es\<rparr>"
       "trace s' = trace s @ first_call env (item r) # es"
       "downloading s' = downloading s" "Cid a' = Cid (item r)" "EndTime a' = EndTime (item r)"
    by auto
  have "first_call env a' = first_call env (item r)"
    using c(5) by (simp add: first_call_def)
  then show ?thesis
    using Creating c by (auto simp: life_def owning_def)
next
  case Reporting
  then show ?thesis
    using assms(2)
    by (auto simp: advance_Reporting life_def owning_def suffix_snoc_self)
next
  case Sleeping
  then show ?thesis
    using assms(2)
    by (auto simp: advance_Sleeping life_def owning_def suffix_snoc_next)
next
  case Leaving
  then show ?thesis
    using assms(2) by (auto simp: advance_Leaving life_def owning_def)
next
  case Returning
  then show ?thesis
    using assms(1) by simp
qed

lemma routine_step_cases:
  assumes "routine_step env d i sys = Some sys'"
  obtains (ret) "i < length (routines sys)" "stage (routines sys ! i) = Returning"
      "length (downWorkerQueue sys) < concurrent d"
      "sys' = sys\<lparr>downWorkerQueue := downWorkerQueue sys @ [slot (routines sys ! i)],
                   routines := take i (routines sys) @ drop (Suc i) (routines sys)\<rparr>"
    | (adv) r' s1 where "i < length (routines sys)" "stage (routines sys ! i) \<noteq> Returning"
      "advance env d (routines sys ! i) (shared sys) = (r', s1)"
      "sys' = sys\<lparr>shared := s1, routines := (routines sys)[i := r']\<rparr>"
  using assms
  by (auto simp: routine_step_def Let_def split: if_splits prod.splits)

lemma other_step_effect:
  assumes "step env d a sys = Some sys'" "\<forall>i. a \<noteq> Routine i"
  shows "downloading (shared sys') = downloading (shared sys)
       \<and> (\<exists>es. trace (shared sys') = trace (shared sys) @ es)
       \<and> (routines sys' = routines sys \<or> (\<exists>j w. routines sys' = routines sys @ [fresh j w]))"
proof (cases a)
  case RunLaunch
  then obtain j w where "routines sys' = routines sys @ [fresh j w]" "shared sys' = shared sys"
    using assms(1) by (auto simp: run_launch_def split: run_pc.splits list.splits)
  then show ?thesis
    by auto
qed (use assms in \<open>auto simp: async_tick_def Push_send_def Push_return_def run_init_def
       initDownWorker_def run_receive_def Let_def emit_def
       split: if_splits sum.splits async_pc.splits list.splits run_pc.splits\<close>)

lemma pool_inv_init: "pool_inv d (newDownloader s)"
  by (simp add: pool_inv_def newDownloader_def held_def slot_ids_def)

lemma pool_inv_async_tick:
  assumes "pool_inv d sys" "async_tick r sys = Some sys'"
  shows "pool_inv d sys'"
proof -
  have same: "downWorkerQueue sys' = downWorkerQueue sys" "routines sys' = routines sys"
    "run_at sys' = run_at sys" "sent sys' = sent sys" "launched sys' = launched sys"
    "JobQueue sys' = JobQueue sys"
    using assms(2) by (auto simp: async_tick_def Let_def split: if_splits sum.splits)
  show ?thesis
    using assms(1) by (simp add: pool_inv_def same slot_ids_cong [OF same(1,2)] held_def)
qed

lemma pool_inv_Push_send:
  assumes "pool_inv d sys" "Push_send sys = Some sys'"
  shows "pool_inv d sys'"
proof -
  obtain j where same: "downWorkerQueue sys' = downWorkerQueue sys" "routines sys' = routines sys"
    "run_at sys' = run_at sys" "sent sys' = sent sys @ [j]" "launched sys' = launched sys"
    "JobQueue sys' = JobQueue sys @ [j]" "length (JobQueue sys) < JobQueue_cap"
    using assms(2) by (auto simp: Push_send_def split: if_splits async_pc.splits list.splits)
  show ?thesis
    using assms(1) same(7)
    by (simp add: pool_inv_def same(1-6) slot_ids_cong [OF same(1,2)] held_def)
qed

lemma pool_inv_Push_return:
  assumes "pool_inv d sys" "Push_return sys = Some sys'"
  shows "pool_inv d sys'"
proof -
  have same: "downWorkerQueue sys' = downWorkerQueue sys" "routines sys' = routines sys"
    "run_at sys' = run_at sys" "sent sys' = sent sys" "launched sys' = launched sys"
    "JobQueue sys' = JobQueue sys"
    using assms(2) by (auto simp: Push_return_def split: async_pc.splits list.splits)
  show ?thesis
    using assms(1) by (simp add: pool_inv_def same slot_ids_cong [OF same(1,2)] held_def)
qed

lemma pool_inv_run_init:
  assumes "pool_inv d sys" "run_init d sys = Some sys'"
  shows "pool_inv d sys'"
proof -
  have st: "run_at sys = Starting"
    using assms(2) by (simp add: run_init_def split: if_splits)
  then have empty: "routines sys = []" "downWorkerQueue sys = []"
    using assms(1) by (simp_all add: pool_inv_def)
  have sys': "sys' = sys\<lparr>downWorkerQueue := map (\<lambda>i. \<lparr>ID = i\<rparr>) [0..<concurrent d],
                          run_at := Receiving\<rparr>"
    using assms(2) st by (simp add: run_init_def initDownWorker_def empty)
  have "slot_ids sys' = [0..<concurrent d]"
    by (simp add: sys' slot_ids_def empty comp_def)
  then show ?thesis
    using assms(1) st by (simp add: pool_inv_def sys' empty held_def)
qed

lemma pool_inv_run_receive:
  assumes "pool_inv d sys" "run_receive sys = Some sys'"
  shows "pool_inv d sys'"
proof -
  obtain a q where same: "downWorkerQueue sys' = downWorkerQueue sys" "routines sys' = routines sys"
    "run_at sys = Receiving" "run_at sys' = Acquiring a" "sent sys' = sent sys"
    "launched sys' = launched sys" "JobQueue sys = a # q" "JobQueue sys' = q"
    using assms(2) by (auto simp: run_receive_def split: run_pc.splits list.splits)
  show ?thesis
    using assms(1) by (simp add: pool_inv_def same slot_ids_cong [OF same(1,2)] held_def)
qed

lemma pool_inv_run_launch:
  assumes "pool_inv d sys" "run_launch sys = Some sys'"
  shows "pool_inv d sys'"
proof -
  obtain a w ws where same: "downWorkerQueue sys = w # ws" "downWorkerQueue sys' = ws"
    "routines sys' = routines sys @ [fresh a w]"
    "run_at sys = Acquiring a" "run_at sys' = Receiving" "sent sys' = sent sys"
    "launched sys' = launched sys @ [a]" "JobQueue sys' = JobQueue sys"
    using assms(2) by (auto simp: run_launch_def split: run_pc.splits list.splits)
  have "distinct (slot_ids sys) \<Longrightarrow> distinct (slot_ids sys')"
    by (auto simp: slot_ids_def same fresh_def)
  then show ?thesis
    using assms(1) by (simp add: pool_inv_def same held_def)
qed

lemma routine_update_slot_ids:
  assumes "i < length rs" "slot r' = slot (rs ! i)"
  shows "map (\<lambda>r. ID (slot r)) (rs[i := r']) = map (\<lambda>r. ID (slot r)) rs"
  using assms by (simp add: map_update list_update_same_conv)

lemma routine_remove_slot_ids:
  assumes "i < length rs"
  shows "distinct (q @ map (\<lambda>r. ID (slot r)) rs) \<Longrightarrow>
         distinct ((q @ [ID (slot (rs ! i))]) @
                   map (\<lambda>r. ID (slot r)) (take i rs @ drop (Suc i) rs))"
proof -
  define A where "A = map (\<lambda>r. ID (slot r)) (take i rs)"
  define B where "B = map (\<lambda>r. ID (slot r)) (drop (Suc i) rs)"
  have "rs = take i rs @ rs ! i # drop (Suc i) rs"
    by (rule id_take_nth_drop [OF assms(1)])
  from arg_cong [OF this, of "map (\<lambda>r. ID (slot r))"]
  have split: "map (\<lambda>r. ID (slot r)) rs = A @ ID (slot (rs ! i)) # B"
    by (simp add: A_def B_def)
  have rest: "map (\<lambda>r. ID (slot r)) (take i rs @ drop (Suc i) rs) = A @ B"
    by (simp add: A_def B_def)
  show "distinct (q @ map (\<lambda>r. ID (slot r)) rs) \<Longrightarrow> ?thesis"
    unfolding split rest by auto
qed

lemma pool_inv_routine_step:
  assumes "pool_inv d sys" "routine_step env d i sys = Some sys'"
  shows "pool_inv d sys'"
  using assms(2)
proof (cases rule: routine_step_cases)
  case ret
  have "distinct (slot_ids sys')"
    using assms(1) routine_remove_slot_ids [OF ret(1), of "map ID (downWorkerQueue sys)"]
    by (simp add: pool_inv_def slot_ids_def ret(4))
  moreover have "length (routines sys') + length (downWorkerQueue sys') =
                 length (routines sys) + length (downWorkerQueue sys)"
    using ret(1) by (simp add: ret(4))
  moreover have "run_at sys' = run_at sys"
    "sent sys' = sent sys" "launched sys' = launched sys" "JobQueue sys' = JobQueue sys"
    by (simp_all add: ret(4))
  ultimately show ?thesis
    using assms(1) by (simp add: pool_inv_def held_def)
next
  case (adv r' s1)
  have "slot r' = slot (routines sys ! i)"
    using advance_effect [OF adv(2,3)] by simp
  then have "slot_ids sys' = slot_ids sys"
    by (simp add: slot_ids_def adv(4) routine_update_slot_ids [OF adv(1)])
  moreover have "length (routines sys') = length (routines sys)"
    "downWorkerQueue sys' = downWorkerQueue sys" "run_at sys' = run_at sys"
    "sent sys' = sent sys" "launched sys' = launched sys" "JobQueue sys' = JobQueue sys"
    by (simp_all add: adv(4))
  ultimately show ?thesis
    using assms(1) by (simp add: pool_inv_def held_def)
qed

lemma pool_inv_step: "pool_inv d sys \<Longrightarrow> step env d a sys = Some sys' \<Longrightarrow> pool_inv d sys'"
  by (cases a)
     (auto intro: pool_inv_async_tick pool_inv_Push_send pool_inv_Push_return pool_inv_run_init
        pool_inv_run_receive pool_inv_run_launch pool_inv_routine_step)

lemma pool_inv_exec: "pool_inv d sys \<Longrightarrow> exec env d acts sys = Some sys' \<Longrightarrow> pool_inv d sys'"
  by (induction acts arbitrary: sys) (auto split: option.splits dest: pool_inv_step)

text \<open>The calls of every goroutine, in every state that a schedule reaches.\<close>

lemma subseq_grow: "subseq xs ys \<Longrightarrow> subseq xs (ys @ zs)"
  using list_emb_append_mono [of "(=)" xs ys "[]" zs] by simp

lemma subseq_both: "subseq xs ys \<Longrightarrow> subseq (xs @ zs) (ys @ zs)"
  using list_emb_append_mono [of "(=)" xs ys zs zs] by simp

lemma life_inv_init: "life_inv env d (newDownloader s)"
  by (simp add: life_inv_def newDownloader_def)

lemma life_fresh: "life env d (fresh a w)" "calls (fresh a w) = []"
  by (simp_all add: life_def fresh_def)

lemma life_inv_step:
  assumes "life_inv env d sys" "step env d a sys = Some sys'"
  shows "life_inv env d sys'"
proof (cases "\<exists>i. a = Routine i")
  case False
  from other_step_effect [OF assms(2)] False obtain es where
    t: "trace (shared sys') = trace (shared sys) @ es"
    and rs: "routines sys' = routines sys \<or> (\<exists>j w. routines sys' = routines sys @ [fresh j w])"
    by auto
  show ?thesis
    unfolding life_inv_def
  proof
    fix r assume "r \<in> set (routines sys')"
    then consider "r \<in> set (routines sys)" | j w where "r = fresh j w"
      using rs by auto
    then show "life env d r \<and> subseq (calls r) (trace (shared sys'))"
    proof cases
      case 1
      then show ?thesis
        using assms(1) t by (auto simp: life_inv_def subseq_grow)
    next
      case 2
      then show ?thesis
        by (simp add: life_fresh)
    qed
  qed
next
  case True
  then obtain i where a: "a = Routine i" by blast
  then have rstep: "routine_step env d i sys = Some sys'"
    using assms(2) by simp
  from rstep show ?thesis
  proof (cases rule: routine_step_cases)
    case ret
    have "set (routines sys') \<subseteq> set (routines sys)"
      using set_take_subset [of i "routines sys"] set_drop_subset [of "Suc i" "routines sys"]
      by (auto simp: ret(4))
    moreover have "shared sys' = shared sys"
      by (simp add: ret(4))
    ultimately show ?thesis
      using assms(1) by (auto simp: life_inv_def)
  next
    case (adv r' s1)
    have old: "life env d (routines sys ! i)"
      "subseq (calls (routines sys ! i)) (trace (shared sys))"
      using assms(1) adv(1) by (auto simp: life_inv_def)
    from advance_effect [OF adv(2,3)] old(1) obtain es where
      e: "trace s1 = trace (shared sys) @ es" "calls r' = calls (routines sys ! i) @ es"
         "life env d r'"
      by blast
    have new: "subseq (calls r') (trace s1)"
      using old(2) by (simp add: e subseq_both)
    show ?thesis
      unfolding life_inv_def
    proof
      fix r assume "r \<in> set (routines sys')"
      then have "r = r' \<or> r \<in> set (routines sys)"
        using set_update_subset_insert [of "routines sys" i r'] by (auto simp: adv(4))
      then show "life env d r \<and> subseq (calls r) (trace (shared sys'))"
        using e(1,3) new assms(1) by (auto simp: life_inv_def adv(4) subseq_grow)
    qed
  qed
qed

lemma life_inv_exec:
  "life_inv env d sys \<Longrightarrow> exec env d acts sys = Some sys' \<Longrightarrow> life_inv env d sys'"
  by (induction acts arbitrary: sys) (auto split: option.splits dest: life_inv_step)

text \<open>The entries of \<open>downloading\<close>, in every state that a schedule reaches.\<close>

lemma owners_at:
  assumes "i < length rs"
  shows "map (\<lambda>r. Cid (item r)) (filter owning rs) =
           map (\<lambda>r. Cid (item r)) (filter owning (take i rs))
           @ (if owning (rs ! i) then [Cid (item (rs ! i))] else [])
           @ map (\<lambda>r. Cid (item r)) (filter owning (drop (Suc i) rs))"
proof -
  have "rs = take i rs @ rs ! i # drop (Suc i) rs"
    by (rule id_take_nth_drop [OF assms])
  from arg_cong [OF this, of "\<lambda>xs. map (\<lambda>r. Cid (item r)) (filter owning xs)"]
  show ?thesis
    by simp
qed

lemma owners_update:
  assumes "i < length rs"
  shows "map (\<lambda>r. Cid (item r)) (filter owning (rs[i := r'])) =
           map (\<lambda>r. Cid (item r)) (filter owning (take i rs))
           @ (if owning r' then [Cid (item r')] else [])
           @ map (\<lambda>r. Cid (item r)) (filter owning (drop (Suc i) rs))"
  by (simp add: upd_conv_take_nth_drop [OF assms])

lemma own_inv_init: "downloading s = {} \<Longrightarrow> own_inv (newDownloader s)"
  by (simp add: own_inv_def owners_def newDownloader_def)

lemma own_inv_step:
  assumes "own_inv sys" "step env d a sys = Some sys'"
  shows "own_inv sys'"
proof (cases "\<exists>i. a = Routine i")
  case False
  from other_step_effect [OF assms(2)] False have
    "downloading (shared sys') = downloading (shared sys)"
    "routines sys' = routines sys \<or> (\<exists>j w. routines sys' = routines sys @ [fresh j w])"
    by auto
  moreover have "\<not> owning (fresh j w)" for j w
    by (simp add: owning_def fresh_def)
  ultimately have "owners sys' = owners sys" "downloading (shared sys') = downloading (shared sys)"
    by (auto simp: owners_def)
  then show ?thesis
    using assms(1) by (simp add: own_inv_def)
next
  case True
  then obtain i where a: "a = Routine i" by blast
  then have rstep: "routine_step env d i sys = Some sys'"
    using assms(2) by simp
  define A where "A = map (\<lambda>r. Cid (item r)) (filter owning (take i (routines sys)))"
  define B where "B = map (\<lambda>r. Cid (item r)) (filter owning (drop (Suc i) (routines sys)))"
  from rstep show ?thesis
  proof (cases rule: routine_step_cases)
    case ret
    have "\<not> owning (routines sys ! i)"
      using ret(2) by (simp add: owning_def)
    then have "owners sys' = owners sys"
      using owners_at [OF ret(1)] by (simp add: owners_def ret(4))
    then show ?thesis
      using assms(1) by (simp add: own_inv_def ret(4))
  next
    case (adv r' s1)
    let ?r = "routines sys ! i"
    have old: "owners sys = A @ (if owning ?r then [Cid (item ?r)] else []) @ B"
      using owners_at [OF adv(1)] by (simp add: owners_def A_def B_def)
    have new: "owners sys' = A @ (if owning r' then [Cid (item r')] else []) @ B"
      using owners_update [OF adv(1), of r'] by (simp add: owners_def A_def B_def adv(4))
    have sh: "shared sys' = s1"
      by (simp add: adv(4))
    note eff = advance_effect [OF adv(2,3)]
    have cid: "Cid (item r') = Cid (item ?r)"
      using eff by simp
    consider (enter) "stage ?r = Entering"
      | (mid) "stage ?r = Creating \<or> stage ?r = Reporting \<or> stage ?r = Sleeping"
      | (leave) "stage ?r = Leaving"
      using adv(2) by (cases "stage ?r") auto
    then show ?thesis
    proof cases
      case enter
      then have no: "\<not> owning ?r"
        by (simp add: owning_def)
      show ?thesis
      proof (cases "Cid (item ?r) \<in> downloading (shared sys)")
        case True
        then have "\<not> owning r'" "downloading s1 = downloading (shared sys)"
          using eff enter by simp_all
        then show ?thesis
          using assms(1) no by (simp add: own_inv_def old new sh)
      next
        case False
        then have "owning r'" "downloading s1 = insert (Cid (item ?r)) (downloading (shared sys))"
          using eff enter by simp_all
        then show ?thesis
          using assms(1) no False by (auto simp: own_inv_def old new sh cid)
      qed
    next
      case mid
      then have "owning ?r" "owning r'" "downloading s1 = downloading (shared sys)"
        using eff by (auto simp: owning_def)
      then show ?thesis
        using assms(1) by (simp add: own_inv_def old new sh cid)
    next
      case leave
      then have "owning ?r" "\<not> owning r'"
        "downloading s1 = downloading (shared sys) - {Cid (item ?r)}"
        using eff by (auto simp: owning_def)
      then show ?thesis
        using assms(1) by (auto simp: own_inv_def old new sh)
    qed
  qed
qed

lemma own_inv_exec:
  "own_inv sys \<Longrightarrow> exec env d acts sys = Some sys' \<Longrightarrow> own_inv sys'"
  by (induction acts arbitrary: sys) (auto split: option.splits dest: own_inv_step)

text \<open>
  The five statements of a goroutine, run without interruption, are \<^verbatim>\<open>jobProcess\<close>.
\<close>

lemma advance_Returning: "stage r = Returning \<Longrightarrow> advance env d r s = (r, s)"
  by (simp add: advance_def)

lemma advances_jobProcess:
  assumes "advances env d 5 (fresh a w) s0 = (r', s')"
  shows "stage r' = Returning \<and> slot r' = w \<and> (item r', s') = jobProcess env d a s0"
proof (cases "Cid a \<in> downloading s0")
  case True
  then have "advances env d 5 (fresh a w) s0 =
      (\<lparr>item = a, slot = w, stage = Returning, existing = True, calls = []\<rparr>, s0)"
    by (simp add: eval_nat_numeral advance_Entering advance_Returning fresh_def)
  moreover have "jobProcess env d a s0 = (a, s0)"
    using True by (simp add: jobProcess_def jobProcess_enter_def)
  ultimately show ?thesis
    using assms [symmetric] by simp
next
  case False
  let ?s1 = "s0\<lparr>downloading := insert (Cid a) (downloading s0)\<rparr>"
  obtain res a' s2 where c: "create env d a ?s1 = (res, a', s2)"
    by (metis surj_pair)
  have "advances env d 5 (fresh a w) s0 =
          (\<lparr>item = a', slot = w, stage = Returning, existing = False,
            calls = since ?s1 s2 @ since s2 (jobProcess_report env d a' s2)
              @ since (jobProcess_report env d a' s2)
                  (jobProcess_sleep (jobProcess_report env d a' s2))
              @ since (jobProcess_sleep (jobProcess_report env d a' s2))
                  (jobProcess_leave a' (jobProcess_sleep (jobProcess_report env d a' s2)))\<rparr>,
           jobProcess_leave a' (jobProcess_sleep (jobProcess_report env d a' s2)))"
    using False c
    by (simp add: eval_nat_numeral advance_def fresh_def jobProcess_enter_def Let_def since_def)
  moreover have "jobProcess env d a s0 =
      (a', jobProcess_leave a' (jobProcess_sleep (jobProcess_report env d a' s2)))"
    using False c by (simp add: jobProcess_def jobProcess_enter_def Let_def)
  ultimately show ?thesis
    using assms [symmetric] by simp
qed

text \<open>Only the last step of a goroutine puts a worker into the pool.\<close>

lemma routine_step_returns_slot:
  assumes "routine_step env d i sys = Some sys'"
      and "length (downWorkerQueue sys) < length (downWorkerQueue sys')"
  shows "i < length (routines sys) \<and> stage (routines sys ! i) = Returning \<and>
         downWorkerQueue sys' = downWorkerQueue sys @ [slot (routines sys ! i)]"
  using assms(1)
proof (cases rule: routine_step_cases)
  case ret
  then show ?thesis by simp
next
  case (adv r' s1)
  then show ?thesis using assms(2) by simp
qed

lemma step_returns_slot:
  assumes "step env d a sys = Some sys'" "run_at sys \<noteq> Starting"
      and "length (downWorkerQueue sys) < length (downWorkerQueue sys')"
  shows "\<exists>i. a = Routine i \<and> i < length (routines sys) \<and>
           stage (routines sys ! i) = Returning \<and>
           downWorkerQueue sys' = downWorkerQueue sys @ [slot (routines sys ! i)]"
proof (cases a)
  case (Routine i)
  then show ?thesis
    using assms routine_step_returns_slot [of env d i sys sys'] by simp
qed (use assms in \<open>auto simp: async_tick_def Push_send_def Push_return_def run_init_def
       run_receive_def run_launch_def Let_def
       split: if_splits sum.splits async_pc.splits list.splits run_pc.splits\<close>)

lemma life_Returning:
  assumes "life env d r" "stage r = Returning"
  shows "(existing r \<and> calls r = []) \<or>
         (\<not> existing r \<and>
          (\<exists>c. calls r = EvStat (Join BackupOutPath (Format env (EndTime (item r)) @ ''a'')) # c
                     @ [EvPushResult (token d) [item r], EvSleep]))"
proof (cases "existing r")
  case True
  then show ?thesis
    using assms by (simp add: life_def)
next
  case False
  then have p: "prefix [first_call env (item r)] (calls r)"
    and q: "suffix [EvPushResult (token d) [item r], EvSleep] (calls r)"
    using assms by (simp_all add: life_def)
  from q obtain zs where zs: "calls r = zs @ [EvPushResult (token d) [item r], EvSleep]"
    by (auto simp: suffix_def)
  from p obtain ys where ys: "calls r = first_call env (item r) # ys"
    by (auto simp: prefix_def)
  have "zs \<noteq> []"
    using zs ys by (auto simp: first_call_def)
  then obtain c where "zs = first_call env (item r) # c"
    using zs ys by (cases zs) auto
  then show ?thesis
    using False zs by (simp add: first_call_def)
qed

text \<open>
  Claim C9. In every state that a schedule reaches from the start:

  at most \<open>concurrent\<close> goroutines process a job; once \<^verbatim>\<open>initDownWorker\<close> has run,
  the goroutines and the workers in the pool are \<open>concurrent\<close> together, and no
  worker is both in the pool and with a goroutine or with two goroutines;

  the jobs sent into \<open>JobQueue\<close> are, in order, the jobs launched, the one the
  dispatcher holds, and the ones still queued, so jobs are launched in the order they
  were sent;

  a step that adds a worker to the pool is the step of a goroutine that stands after
  \<^verbatim>\<open>jobFunc()\<close>, and the worker is the one that goroutine held;

  a goroutine that stands there has either found its content id in \<open>downloading\<close>
  and made no call, or has made the calls of \<^verbatim>\<open>create\<close>, which begin with the stat
  of the first candidate directory, then the report of the job as \<^verbatim>\<open>create\<close> left
  it, then the sleep; these calls are in the trace of the shared state, in this order;

  when \<open>downloading\<close> was empty at the start, it holds exactly the content ids of the
  goroutines that stand between their insertion and their removal, each once: the
  entry of a goroutine that is about to return its worker has been removed;

  and the five statements of a goroutine, run without interruption, end after
  \<^verbatim>\<open>jobFunc()\<close> with the worker it was given and are \<^verbatim>\<open>jobProcess\<close>.
\<close>

theorem pool_bound_and_fifo:
  assumes "exec env d acts (newDownloader s) = Some sys"
  shows "length (routines sys) \<le> concurrent d
       \<and> length (routines sys) + length (downWorkerQueue sys) =
           (if run_at sys = Starting then 0 else concurrent d)
       \<and> distinct (map ID (downWorkerQueue sys) @ map (\<lambda>r. ID (slot r)) (routines sys))
       \<and> sent sys =
           launched sys @ (case run_at sys of Acquiring a \<Rightarrow> [a] | _ \<Rightarrow> []) @ JobQueue sys
       \<and> (\<forall>a sys'. step env d a sys = Some sys' \<and> run_at sys \<noteq> Starting \<and>
              length (downWorkerQueue sys) < length (downWorkerQueue sys') \<longrightarrow>
              (\<exists>i. a = Routine i \<and> i < length (routines sys) \<and>
                 stage (routines sys ! i) = Returning \<and>
                 downWorkerQueue sys' = downWorkerQueue sys @ [slot (routines sys ! i)]))
       \<and> (\<forall>r \<in> set (routines sys). stage r = Returning \<longrightarrow>
              (existing r \<and> calls r = []) \<or>
              (\<not> existing r \<and>
               (\<exists>c. calls r =
                  EvStat (Join BackupOutPath (Format env (EndTime (item r)) @ ''a'')) # c
                  @ [EvPushResult (token d) [item r], EvSleep])))
       \<and> (\<forall>r \<in> set (routines sys). subseq (calls r) (trace (shared sys)))
       \<and> (downloading s = {} \<longrightarrow>
              distinct (owners sys) \<and> set (owners sys) = downloading (shared sys))
       \<and> (\<forall>a w s0 r' s'. advances env d 5 (fresh a w) s0 = (r', s') \<longrightarrow>
              stage r' = Returning \<and> slot r' = w \<and> (item r', s') = jobProcess env d a s0)"
proof -
  have inv: "pool_inv d sys"
    using pool_inv_exec [OF pool_inv_init assms] .
  then have bound: "length (routines sys) \<le> concurrent d"
    by (auto simp: pool_inv_def split: if_splits)
  have pool: "length (routines sys) + length (downWorkerQueue sys) =
           (if run_at sys = Starting then 0 else concurrent d)"
    "distinct (map ID (downWorkerQueue sys) @ map (\<lambda>r. ID (slot r)) (routines sys))"
    "sent sys =
       launched sys @ (case run_at sys of Acquiring a \<Rightarrow> [a] | _ \<Rightarrow> []) @ JobQueue sys"
    using inv by (simp_all add: pool_inv_def slot_ids_def held_def)
  have li: "life_inv env d sys"
    using life_inv_exec [OF life_inv_init assms] .
  have fin: "(existing r \<and> calls r = []) \<or>
              (\<not> existing r \<and>
               (\<exists>c. calls r =
                  EvStat (Join BackupOutPath (Format env (EndTime (item r)) @ ''a'')) # c
                  @ [EvPushResult (token d) [item r], EvSleep]))"
    if "r \<in> set (routines sys)" "stage r = Returning" for r
    using li that life_Returning [of env d r] by (simp add: life_inv_def)
  have sub: "subseq (calls r) (trace (shared sys))" if "r \<in> set (routines sys)" for r
    using li that by (simp add: life_inv_def)
  have own: "distinct (owners sys) \<and> set (owners sys) = downloading (shared sys)"
    if "downloading s = {}"
    using own_inv_exec [OF own_inv_init [OF that] assms] by (simp add: own_inv_def)
  show ?thesis
    using bound pool step_returns_slot [of env d _ sys] fin sub own
      advances_jobProcess [of env d]
    by blast
qed

lemma exec_append:
  "exec env d (xs @ ys) sys =
     (case exec env d xs sys of None \<Rightarrow> None | Some sys' \<Rightarrow> exec env d ys sys')"
  by (induction xs arbitrary: sys) (simp_all split: option.splits)

lemma exec_burst:
  "exec env_ok d_main acts_burst (newDownloader s_empty) = Some sys_burst"
  by (simp add: acts_burst_def sys_burst_def burst_def newDownloader_def async_tick_def
        Push_send_def Push_return_def run_init_def initDownWorker_def run_receive_def
        run_launch_def routine_step_def advance_def fresh_def since_def jobProcess_enter_def
        JobQueue_cap_def d_main_def s_empty_def emit_def job1_def job_of_def Let_def upt_rec)

lemma create_env_ok_job1:
  assumes "''/carfile/titan/20240101a'' \<notin> dirs s"
  shows "create env_ok d_main job1 s =
     ((Some (job1\<lparr>Path := ''/carfile/titan/20240101a''\<rparr>), None),
      job1\<lparr>Path := ''/carfile/titan/20240101a''\<rparr>,
      s\<lparr>dirs := insert ''/carfile/titan/20240101a'' (dirs s),
        files := (files s)(''/carfile/titan/20240101a/cid1.car'' \<mapsto> ''carbytes''),
        dirSize := (dirSize s)(''/carfile/titan/20240101a'' \<mapsto>
           (case dirSize s ''/carfile/titan/20240101a'' of None \<Rightarrow> 0 | Some v \<Rightarrow> v) + 20 * GiB),
        trace := trace s @
          [EvStat ''/carfile/titan/20240101a'', EvMkdir ''/carfile/titan/20240101a'',
           EvGetInfo ''http://scheduler1'' ''cid1'',
           EvNewRequest ''https://n1.example/ipfs/cid1?format=car'',
           EvDo ''https://n1.example/ipfs/cid1?format=car'',
           EvNewRequest ''https://n2.example/ipfs/cid1?format=car'',
           EvDo ''https://n2.example/ipfs/cid1?format=car'',
           EvNewRequest ''https://n3.example/ipfs/cid1?format=car'',
           EvDo ''https://n3.example/ipfs/cid1?format=car'',
           EvCreate ''/carfile/titan/20240101a/cid1.car'',
           EvCopy ''/carfile/titan/20240101a/cid1.car'']\<rparr>)"
proof -
  let ?A = "''/carfile/titan/20240101a''"
  have fmt: "Format env_ok t = ''20240101''" for t
    by (simp add: env_ok_def)
  have io: "Mkdir env_ok p = None" "Create env_ok p = None" "Copy env_ok p b = None" for p b
    by (simp_all add: env_ok_def)
  have cand: "candidate ''20240101'' 97 = ?A"
    by (simp add: candidate_a Join_def BackupOutPath_def)
  have alloc: "getOutPath env_ok ''20240101'' s =
      ((?A, None), emit (EvMkdir ?A) (emit (EvStat ?A) s\<lparr>dirs := insert ?A (dirs s)\<rparr>))"
    unfolding getOutPath_def
    by (subst loop_step_missing) (simp_all add: cand assms io)
  have info: "GetAssetSourceDownloadInfo env_ok u c =
        Inr [\<lparr>Address = ''n1.example'', Tk = ''t1''\<rparr>,
             \<lparr>Address = ''n2.example'', Tk = ''t2''\<rparr>,
             \<lparr>Address = ''n3.example'', Tk = ''t3''\<rparr>]" for u c
    by (simp add: env_ok_def)
  have sched: "find (\<lambda>sd. AreaId sd = areaId d_main) (schedulers d_main) = Some sched1"
    by (simp add: d_main_def sched1_def)
  have job: "Cid job1 = ''cid1''" "EndTime job1 = 0" "TotalSize job1 = 20 * GiB"
    by (simp_all add: job1_def)
  have path: "Join ?A ''cid1.car'' = ''/carfile/titan/20240101a/cid1.car''"
    by (simp add: Join_def)
  have dl: "download env_ok sched1 ?A ''cid1'' sz s' =
     (None, dirSize_add ?A sz
        (emits [EvGetInfo ''http://scheduler1'' ''cid1'',
           EvNewRequest ''https://n1.example/ipfs/cid1?format=car'',
           EvDo ''https://n1.example/ipfs/cid1?format=car'',
           EvNewRequest ''https://n2.example/ipfs/cid1?format=car'',
           EvDo ''https://n2.example/ipfs/cid1?format=car'',
           EvNewRequest ''https://n3.example/ipfs/cid1?format=car'',
           EvDo ''https://n3.example/ipfs/cid1?format=car'',
           EvCreate ''/carfile/titan/20240101a/cid1.car'',
           EvCopy ''/carfile/titan/20240101a/cid1.car'']
           (s'\<lparr>files := (files s')(''/carfile/titan/20240101a/cid1.car'' \<mapsto> ''carbytes'')\<rparr>)))"
    for sz s'
    by (simp add: download_def info request_env_ok_fails request_env_ok_n3 sched1_def
          os_Create_def io_Copy_def io path emit_def emits_def)
  show ?thesis
    by (simp add: create_def fmt job alloc sched dl Let_def)
       (simp add: dirSize_add_def emit_def emits_def)
qed

lemma exec_life:
  "exec env_ok d_main acts_life (newDownloader s_empty) = Some sys_life"
proof -
  let ?A = "''/carfile/titan/20240101a''"
  have r0: "routines sys_burst ! 0 = (fresh job1 \<lparr>ID = 0\<rparr>)\<lparr>stage := Creating\<rparr>"
           "0 < length (routines sys_burst)"
    by (simp_all add: sys_burst_def)
  have sh: "shared sys_burst = s_empty\<lparr>downloading := {''cid1''}, trace := [EvGetJobs]\<rparr>"
    by (simp add: sys_burst_def)
  have nd: "?A \<notin> dirs (s_empty\<lparr>downloading := {''cid1''}, trace := [EvGetJobs]\<rparr>)"
    by (simp add: s_empty_def)
  have post: "DoPost env_ok t js = Inr \<lparr>StatusCode = 200, Status = ''200 OK'', Body = []\<rparr>" for t js
    by (simp add: env_ok_def)
  have tok: "token d_main = ''tok''"
    by (simp add: d_main_def)
  have "exec env_ok d_main [Routine 0, Routine 0, Routine 0, Routine 0] sys_burst = Some sys_life"
    by (simp add: routine_step_def r0 sh advance_def fresh_def create_env_ok_job1 [OF nd] since_def
          jobProcess_report_def pushResult_def post tok jobProcess_sleep_def jobProcess_leave_def
          emit_def Let_def)
       (simp add: sys_life_def sys_burst_def s_empty_def calls_job1_def fresh_def job1_def)
  then show ?thesis
    by (simp add: acts_life_def exec_append exec_burst)
qed

text \<open>
  Witness for C9: with concurrency 5 and a burst of six jobs, the schedule
  \<open>acts_burst\<close> launches five goroutines; the first has inserted its content id and
  stands before \<^verbatim>\<open>create\<close>. Four more steps of it make the thirteen calls of
  \<^verbatim>\<open>create\<close>, the report and the sleep, write the file and remove the content id.
  The pool is empty and the dispatcher holds the sixth job, which it cannot launch. The
  next step of the first goroutine returns worker 0, and the sixth job is launched with
  it. The second goroutine found its content id taken and has made no call.
\<close>

theorem pool_bound_and_fifo_witness:
  "exec env_ok d_main acts_burst (newDownloader s_empty) = Some sys_burst
   \<and> exec env_ok d_main [Routine 0, Routine 0, Routine 0, Routine 0] sys_burst = Some sys_life
   \<and> length burst = 6 \<and> concurrent d_main = 5
   \<and> length (routines sys_life) = 5 \<and> downWorkerQueue sys_life = []
   \<and> sent sys_life = burst \<and> launched sys_life = take 5 burst
   \<and> run_at sys_life = Acquiring (burst ! 5)
   \<and> step env_ok d_main RunLaunch sys_life = None
   \<and> routines sys_burst ! 0 =
        \<lparr>item = job1, slot = \<lparr>ID = 0\<rparr>, stage = Creating, existing = False, calls = []\<rparr>
   \<and> routines sys_life ! 0 =
        \<lparr>item = job1\<lparr>Path := ''/carfile/titan/20240101a''\<rparr>, slot = \<lparr>ID = 0\<rparr>,
         stage = Returning, existing = False,
         calls =
           [EvStat ''/carfile/titan/20240101a'', EvMkdir ''/carfile/titan/20240101a'',
            EvGetInfo ''http://scheduler1'' ''cid1'',
            EvNewRequest ''https://n1.example/ipfs/cid1?format=car'',
            EvDo ''https://n1.example/ipfs/cid1?format=car'',
            EvNewRequest ''https://n2.example/ipfs/cid1?format=car'',
            EvDo ''https://n2.example/ipfs/cid1?format=car'',
            EvNewRequest ''https://n3.example/ipfs/cid1?format=car'',
            EvDo ''https://n3.example/ipfs/cid1?format=car'',
            EvCreate ''/carfile/titan/20240101a/cid1.car'',
            EvCopy ''/carfile/titan/20240101a/cid1.car'',
            EvPushResult ''tok'' [job1\<lparr>Path := ''/carfile/titan/20240101a''\<rparr>],
            EvSleep]\<rparr>
   \<and> (\<exists>c. calls (routines sys_life ! 0) =
          EvStat (Join BackupOutPath (Format env_ok (EndTime (item (routines sys_life ! 0))) @ ''a''))
            # c @ [EvPushResult (token d_main) [item (routines sys_life ! 0)], EvSleep])
   \<and> trace (shared sys_life) = EvGetJobs # calls (routines sys_life ! 0)
   \<and> downloading (shared sys_burst) = {''cid1''}
   \<and> downloading (shared sys_life) = {}
   \<and> files (shared sys_life) ''/carfile/titan/20240101a/cid1.car'' = Some ''carbytes''
   \<and> routines sys_life ! 1 =
        \<lparr>item = job1, slot = \<lparr>ID = 1\<rparr>, stage = Returning, existing = True, calls = []\<rparr>
   \<and> step env_ok d_main (Routine 0) sys_life =
        Some (sys_life\<lparr>downWorkerQueue := [\<lparr>ID = 0\<rparr>], routines := tl (routines sys_life)\<rparr>)
   \<and> exec env_ok d_main [Routine 0, RunLaunch] sys_life =
        Some (sys_life\<lparr>downWorkerQueue := [],
                routines := tl (routines sys_life) @ [fresh (job_of ''cid6'') \<lparr>ID = 0\<rparr>],
                launched := burst, run_at := Receiving\<rparr>)
   \<and> advances env_ok d_main 5 (fresh job1 \<lparr>ID = 0\<rparr>) s_empty =
        (\<lparr>item = job1\<lparr>Path := ''/carfile/titan/20240101a''\<rparr>, slot = \<lparr>ID = 0\<rparr>,
          stage = Returning, existing = False, calls = calls_job1\<rparr>,
         snd (jobProcess env_ok d_main job1 s_empty))"
proof -
  let ?A = "''/carfile/titan/20240101a''"
  note inv = pool_bound_and_fifo [OF exec_life]
  note start = exec_burst
  have life: "exec env_ok d_main [Routine 0, Routine 0, Routine 0, Routine 0] sys_burst =
              Some sys_life"
    using exec_life by (simp add: acts_life_def exec_append exec_burst)
  have blocked: "step env_ok d_main RunLaunch sys_life = None"
    by (simp add: run_launch_def sys_life_def sys_burst_def)
  have ret: "step env_ok d_main (Routine 0) sys_life =
        Some (sys_life\<lparr>downWorkerQueue := [\<lparr>ID = 0\<rparr>], routines := tl (routines sys_life)\<rparr>)"
    by (simp add: routine_step_def sys_life_def sys_burst_def d_main_def)
  have nxt: "exec env_ok d_main [Routine 0, RunLaunch] sys_life =
        Some (sys_life\<lparr>downWorkerQueue := [],
                routines := tl (routines sys_life) @ [fresh (job_of ''cid6'') \<lparr>ID = 0\<rparr>],
                launched := burst, run_at := Receiving\<rparr>)"
    unfolding exec.simps ret
    by (simp add: run_launch_def) (simp add: sys_life_def sys_burst_def burst_def)
  have r0: "routines sys_life ! 0 \<in> set (routines sys_life)"
           "stage (routines sys_life ! 0) = Returning" "\<not> existing (routines sys_life ! 0)"
    by (simp_all add: sys_life_def sys_burst_def)
  have shape: "\<exists>c. calls (routines sys_life ! 0) =
          EvStat (Join BackupOutPath (Format env_ok (EndTime (item (routines sys_life ! 0))) @ ''a''))
            # c @ [EvPushResult (token d_main) [item (routines sys_life ! 0)], EvSleep]"
    using inv r0 by blast
  have count: "length (routines sys_life) + length (downWorkerQueue sys_life) = concurrent d_main"
    using inv by (simp add: sys_life_def sys_burst_def)
  have nd: "?A \<notin> dirs s_empty" "''cid1'' \<notin> downloading s_empty"
    by (simp_all add: s_empty_def)
  have jc: "Cid job1 = ''cid1''"
    by (simp add: job1_def)
  have tok: "token d_main = ''tok''"
    by (simp add: d_main_def)
  have post: "DoPost env_ok t js = Inr \<lparr>StatusCode = 200, Status = ''200 OK'', Body = []\<rparr>" for t js
    by (simp add: env_ok_def)
  have adv: "advances env_ok d_main 5 (fresh job1 \<lparr>ID = 0\<rparr>) s_empty =
        (\<lparr>item = job1\<lparr>Path := ?A\<rparr>, slot = \<lparr>ID = 0\<rparr>,
          stage = Returning, existing = False, calls = calls_job1\<rparr>,
         snd (jobProcess env_ok d_main job1 s_empty))"
  proof -
    obtain r' s' where a: "advances env_ok d_main 5 (fresh job1 \<lparr>ID = 0\<rparr>) s_empty = (r', s')"
      by (cases "advances env_ok d_main 5 (fresh job1 \<lparr>ID = 0\<rparr>) s_empty")
    have j: "(item r', s') = jobProcess env_ok d_main job1 s_empty"
      using inv a by blast
    have c: "r' = \<lparr>item = job1\<lparr>Path := ?A\<rparr>, slot = \<lparr>ID = 0\<rparr>,
                  stage = Returning, existing = False, calls = calls_job1\<rparr>"
      using a
      by (simp add: eval_nat_numeral advance_def fresh_def jobProcess_enter_def nd jc
            create_env_ok_job1 since_def jobProcess_report_def pushResult_def post tok
            jobProcess_sleep_def jobProcess_leave_def emit_def Let_def)
         (auto simp add: calls_job1_def s_empty_def)
    show ?thesis
      using a j [symmetric] c by simp
  qed
  have sizes: "length burst = 6" "concurrent d_main = 5"
    by (simp_all add: burst_def d_main_def)
  have pool: "length (routines sys_life) = 5" "downWorkerQueue sys_life = []"
    using count by (simp_all add: sys_life_def sys_burst_def d_main_def)
  have fifo: "sent sys_life = burst" "launched sys_life = take 5 burst"
             "run_at sys_life = Acquiring (burst ! 5)"
    using inv by (simp_all add: sys_life_def sys_burst_def burst_def)
  have before: "routines sys_burst ! 0 =
        \<lparr>item = job1, slot = \<lparr>ID = 0\<rparr>, stage = Creating, existing = False, calls = []\<rparr>"
    by (simp add: sys_burst_def fresh_def)
  have after: "routines sys_life ! 0 =
        \<lparr>item = job1\<lparr>Path := ''/carfile/titan/20240101a''\<rparr>, slot = \<lparr>ID = 0\<rparr>,
         stage = Returning, existing = False,
         calls =
           [EvStat ''/carfile/titan/20240101a'', EvMkdir ''/carfile/titan/20240101a'',
            EvGetInfo ''http://scheduler1'' ''cid1'',
            EvNewRequest ''https://n1.example/ipfs/cid1?format=car'',
            EvDo ''https://n1.example/ipfs/cid1?format=car'',
            EvNewRequest ''https://n2.example/ipfs/cid1?format=car'',
            EvDo ''https://n2.example/ipfs/cid1?format=car'',
            EvNewRequest ''https://n3.example/ipfs/cid1?format=car'',
            EvDo ''https://n3.example/ipfs/cid1?format=car'',
            EvCreate ''/carfile/titan/20240101a/cid1.car'',
            EvCopy ''/carfile/titan/20240101a/cid1.car'',
            EvPushResult ''tok'' [job1\<lparr>Path := ''/carfile/titan/20240101a''\<rparr>],
            EvSleep]\<rparr>"
    by (simp add: sys_life_def sys_burst_def calls_job1_def)
  have tr: "trace (shared sys_life) = EvGetJobs # calls (routines sys_life ! 0)"
    by (simp add: sys_life_def sys_burst_def)
  have dl: "downloading (shared sys_burst) = {''cid1''}" "downloading (shared sys_life) = {}"
    "files (shared sys_life) ''/carfile/titan/20240101a/cid1.car'' = Some ''carbytes''"
    by (simp_all add: sys_life_def sys_burst_def)
  have dup: "routines sys_life ! 1 =
        \<lparr>item = job1, slot = \<lparr>ID = 1\<rparr>, stage = Returning, existing = True, calls = []\<rparr>"
    by (simp add: sys_life_def sys_burst_def)
  show ?thesis
    by (intro conjI; fact)
qed

section \<open>The poller\<close>

lemma routine_step_poller:
  "routine_step env d i sys = Some sys' \<Longrightarrow>
   running sys' = running sys \<and> async_at sys' = async_at sys \<and> sent sys' = sent sys \<and>
   JobQueue sys' = JobQueue sys"
  by (erule routine_step_cases) simp_all

lemma stuck_step:
  assumes "stuck sys" "step env d a sys = Some sys'"
  shows "stuck sys' \<and> sent sys' = sent sys"
proof (cases a)
  case (Routine i)
  then show ?thesis
    using assms routine_step_poller [of env d i sys sys'] by (simp add: stuck_def)
qed (use assms in \<open>auto simp: stuck_def async_tick_def Push_send_def Push_return_def run_init_def
       initDownWorker_def run_receive_def run_launch_def Let_def
       split: if_splits sum.splits async_pc.splits list.splits run_pc.splits\<close>)

lemma stuck_exec:
  "stuck sys \<Longrightarrow> exec env d acts sys = Some sys' \<Longrightarrow> stuck sys' \<and> sent sys' = sent sys"
proof (induction acts arbitrary: sys)
  case Nil
  then show ?case by simp
next
  case (Cons a acts)
  then obtain sys1 where s1: "step env d a sys = Some sys1" "exec env d acts sys1 = Some sys'"
    by (auto split: option.splits)
  from stuck_step [OF Cons.prems(1) s1(1)] Cons.IH [OF _ s1(2)]
  show ?case by simp
qed

lemma running_cleared:
  assumes "step env d a sys = Some sys'" "running sys" "\<not> running sys'"
  shows "a = PushReturn \<and> async_at sys = Pushing []"
proof (cases a)
  case (Routine i)
  then show ?thesis
    using assms routine_step_poller [of env d i sys sys'] by simp
qed (use assms in \<open>auto simp: async_tick_def Push_send_def Push_return_def run_init_def
       initDownWorker_def run_receive_def run_launch_def Let_def
       split: if_splits sum.splits async_pc.splits list.splits run_pc.splits\<close>)

text \<open>
  Claim C10. Let the poller handle a tick with the flag clear and \<^verbatim>\<open>getJobs\<close>
  return an error. Then the flag is set afterwards, and after any further schedule it
  is still set, the poller waits for a tick, no job has been sent into \<open>JobQueue\<close>,
  and a tick leaves the whole state as it is, whatever \<^verbatim>\<open>getJobs\<close> would return.
  The only step that clears a set flag is the return of \<^verbatim>\<open>Push\<close> after its last
  send; a tick that finds the flag clear and fetches an empty list leaves it clear.
\<close>

theorem poller_stuck_after_error:
  assumes "async_at sys = Waiting" "\<not> running sys"
      and "step env d (Tick (Inl e)) sys = Some sys1"
      and "exec env d acts sys1 = Some sys2"
  shows "running sys1 \<and> running sys2 \<and> async_at sys2 = Waiting
       \<and> sent sys1 = sent sys \<and> sent sys2 = sent sys
       \<and> (\<forall>r. step env d (Tick r) sys2 = Some sys2)
       \<and> (\<forall>a st st'. step env d a st = Some st' \<and> running st \<and> \<not> running st' \<longrightarrow>
              a = PushReturn \<and> async_at st = Pushing [])
       \<and> (\<forall>st st'. step env d (Tick (Inr [])) st = Some st' \<and> \<not> running st \<longrightarrow>
              \<not> running st')"
proof -
  have s1: "stuck sys1" "sent sys1 = sent sys"
    using assms(1-3) by (auto simp: stuck_def async_tick_def Let_def)
  have s2: "stuck sys2" "sent sys2 = sent sys1"
    using stuck_exec [OF s1(1) assms(4)] by simp_all
  have skip: "step env d (Tick r) sys2 = Some sys2" for r
    using s2(1) by (simp add: stuck_def async_tick_def)
  have empty: "\<not> running st'"
    if "step env d (Tick (Inr [])) st = Some st'" "\<not> running st" for st st'
    using that by (auto simp: async_tick_def Let_def split: if_splits)
  show ?thesis
    using s1 s2 skip running_cleared [of env d] empty by (simp add: stuck_def) blast
qed

text \<open>
  Witness for C10: after a tick with a timeout, a later tick that would bring a job
  and one that would bring none change nothing. The return of \<^verbatim>\<open>Push\<close> clears the
  flag, and a first tick with an empty list leaves it clear.
\<close>

theorem poller_stuck_after_error_witness:
  "step env_ok d_main (Tick (Inl (ExtError ''timeout''))) (newDownloader s_empty) = Some sys_stuck
   \<and> exec env_ok d_main [RunInit, Tick (Inr [job1]), Tick (Inr [])] sys_stuck =
       Some (sys_stuck\<lparr>downWorkerQueue := map (\<lambda>i. \<lparr>ID = i\<rparr>) [0, 1, 2, 3, 4],
                       run_at := Receiving\<rparr>)
   \<and> running sys_stuck \<and> sent sys_stuck = []
   \<and> trace (shared sys_stuck) = [EvGetJobs]
   \<and> step env_ok d_main PushReturn (sys_stuck\<lparr>async_at := Pushing []\<rparr>) =
       Some (sys_stuck\<lparr>running := False\<rparr>)
   \<and> step env_ok d_main (Tick (Inr [])) (newDownloader s_empty) =
       Some ((newDownloader s_empty)\<lparr>shared := s_empty\<lparr>trace := [EvGetJobs]\<rparr>\<rparr>)"
proof -
  have w: "async_at (newDownloader s_empty) = Waiting" "\<not> running (newDownloader s_empty)"
    by (simp_all add: newDownloader_def)
  have t: "step env_ok d_main (Tick (Inl (ExtError ''timeout''))) (newDownloader s_empty) =
           Some sys_stuck"
    by (simp add: async_tick_def sys_stuck_def newDownloader_def emit_def s_empty_def Let_def)
  have e: "exec env_ok d_main [RunInit, Tick (Inr [job1]), Tick (Inr [])] sys_stuck =
       Some (sys_stuck\<lparr>downWorkerQueue := map (\<lambda>i. \<lparr>ID = i\<rparr>) [0, 1, 2, 3, 4],
                       run_at := Receiving\<rparr>)"
    by (simp add: async_tick_def run_init_def initDownWorker_def sys_stuck_def newDownloader_def
          d_main_def upt_rec)
  have p: "step env_ok d_main PushReturn (sys_stuck\<lparr>async_at := Pushing []\<rparr>) =
       Some (sys_stuck\<lparr>running := False\<rparr>)"
    by (simp add: Push_return_def sys_stuck_def newDownloader_def)
  have n: "step env_ok d_main (Tick (Inr [])) (newDownloader s_empty) =
       Some ((newDownloader s_empty)\<lparr>shared := s_empty\<lparr>trace := [EvGetJobs]\<rparr>\<rparr>)"
    by (simp add: async_tick_def newDownloader_def emit_def s_empty_def Let_def)
  show ?thesis
    using poller_stuck_after_error [OF w t e] t e p n
    by (simp add: sys_stuck_def newDownloader_def s_empty_def)
qed

end
